theory Spec2Isabelle
  imports Main
begin

section \<open>Python values used by the bulk-edit compiler\<close>

text \<open>
  The embedding follows \<^verbatim>\<open>src/lib/centralCLI/central.py\<close>, class \<^verbatim>\<open>BuildCLI\<close>.
  A string is a sequence of code points below 256, one \<^typ>\<open>char\<close> each (ASCII and Latin-1);
  on these, \<^verbatim>\<open>strip\<close>, \<^verbatim>\<open>lower\<close> and \<^verbatim>\<open>repr\<close> are Python's. Text with other code points is
  outside the type.
  The input of ingestion is the list \<^verbatim>\<open>csv_rows\<close> that \<^verbatim>\<open>csv.reader\<close> returns for the
  lines of the file that do not start with \<^verbatim>\<open>#\<close>: a list of rows, each a list of cells.
\<close>

datatype error = KeyError string | AttributeError string

text \<open>A value stored in a VLAN dictionary: a cell of the file, or an accumulated list of cells.\<close>

datatype pyval = Str string | Lst "string list"

text \<open>Python truthiness of a stored value: empty strings and empty lists are false.\<close>

fun truthy :: "pyval \<Rightarrow> bool" where
  "truthy (Str s) = (s \<noteq> [])"
| "truthy (Lst xs) = (xs \<noteq> [])"

text \<open>Iterating a value (\<^verbatim>\<open>for x in v\<close>, \<^verbatim>\<open>[*v]\<close>): a string yields its characters.\<close>

fun elems :: "pyval \<Rightarrow> string list" where
  "elems (Str s) = map (\<lambda>c. [c]) s"
| "elems (Lst xs) = xs"

fun join_with :: "string \<Rightarrow> string list \<Rightarrow> string" where
  "join_with sep [] = []"
| "join_with sep [x] = x"
| "join_with sep (x # y # ys) = x @ sep @ join_with sep (y # ys)"

subsection \<open>Formatting\<close>

text \<open>
  \<^verbatim>\<open>repr\<close> of a string. The quote is the apostrophe, or the double quote when the string has
  an apostrophe and no double quote. The quote and the backslash are escaped with a
  backslash; tab, newline and carriage return print as \<^verbatim>\<open>\t\<close>, \<^verbatim>\<open>\n\<close>, \<^verbatim>\<open>\r\<close>; every other
  character that is not printable (below 32, 127 to 160, and 173) prints as \<^verbatim>\<open>\xhh\<close>.
\<close>

definition hex_digit :: "nat \<Rightarrow> char" where
  "hex_digit n = ''0123456789abcdef'' ! (n mod 16)"

definition printable :: "char \<Rightarrow> bool" where
  "printable c = (let n = (of_char c :: nat) in (32 \<le> n \<and> n < 127) \<or> (161 \<le> n \<and> n \<noteq> 173))"

definition repr_char :: "char \<Rightarrow> char \<Rightarrow> string" where
  "repr_char q c =
     (if c = q \<or> c = CHR 0x5C then [CHR 0x5C, c]
      else if c = CHR 0x09 then [CHR 0x5C, CHR ''t'']
      else if c = CHR 0x0A then [CHR 0x5C, CHR ''n'']
      else if c = CHR 0x0D then [CHR 0x5C, CHR ''r'']
      else if printable c then [c]
      else [CHR 0x5C, CHR ''x'', hex_digit (of_char c div 16), hex_digit (of_char c mod 16)])"

definition py_repr :: "string \<Rightarrow> string" where
  "py_repr x =
     (let q = (if CHR 0x27 \<in> set x \<and> CHR 0x22 \<notin> set x then CHR 0x22 else CHR 0x27)
      in [q] @ concat (map (repr_char q) x) @ [q])"

text \<open>
  Formatting a value inside an f-string: a string as it is, a list as \<^verbatim>\<open>str(list)\<close>, that
  is the \<^verbatim>\<open>repr\<close> of its items between brackets.
\<close>

fun fmt :: "pyval \<Rightarrow> string" where
  "fmt (Str s) = s"
| "fmt (Lst xs) = ''['' @ join_with '', '' (map py_repr xs) @ '']''"

subsection \<open>String methods\<close>

definition startswith :: "string \<Rightarrow> string \<Rightarrow> bool" where
  "startswith s p = (take (length p) s = p)"

text \<open>\<^verbatim>\<open>sub in s\<close> on strings.\<close>

fun contains :: "string \<Rightarrow> string \<Rightarrow> bool" where
  "contains sub [] = (sub = [])"
| "contains sub (c # cs) = (startswith (c # cs) sub \<or> contains sub cs)"

text \<open>
  The characters \<^verbatim>\<open>str.strip()\<close> removes: tab to carriage return, the four separators
  28 to 31, the space, next line (133) and the no-break space (160).
\<close>

definition is_space :: "char \<Rightarrow> bool" where
  "is_space c = (let n = (of_char c :: nat) in
     (9 \<le> n \<and> n \<le> 13) \<or> (28 \<le> n \<and> n \<le> 32) \<or> n = 133 \<or> n = 160)"

definition strip :: "string \<Rightarrow> string" where
  "strip s = rev (dropWhile is_space (rev (dropWhile is_space s)))"

text \<open>
  \<^verbatim>\<open>str.lower()\<close>: the capital letters are A to Z and, in Latin-1, 192 to 222 without the
  multiplication sign (215); each has its small letter 32 places further.
\<close>

definition lower_char :: "char \<Rightarrow> char" where
  "lower_char c = (let n = (of_char c :: nat) in
     if (65 \<le> n \<and> n \<le> 90) \<or> (192 \<le> n \<and> n \<le> 222 \<and> n \<noteq> 215) then char_of (n + 32) else c)"

definition lower :: "string \<Rightarrow> string" where
  "lower s = map lower_char s"

definition replace_space :: "string \<Rightarrow> string" where
  "replace_space s = map (\<lambda>c. if c = CHR '' '' then CHR ''_'' else c) s"

text \<open>\<^verbatim>\<open>k.strip().lower().replace(' ', '_')\<close>\<close>

definition norm_key :: "string \<Rightarrow> string" where
  "norm_key k = replace_space (lower (strip k))"

subsection \<open>Dictionaries\<close>

text \<open>
  A Python dict keeps insertion order and \<^verbatim>\<open>d[k] = v\<close> on an existing key keeps the key's
  place, so a dict is an association list with unique keys.
\<close>

definition dict_get :: "('k \<times> 'v) list \<Rightarrow> 'k \<Rightarrow> 'v option" where
  "dict_get d k = map_of d k"

fun dict_set :: "'k \<Rightarrow> 'v \<Rightarrow> ('k \<times> 'v) list \<Rightarrow> ('k \<times> 'v) list" where
  "dict_set k v [] = [(k, v)]"
| "dict_set k v (p # d) = (if fst p = k then (k, v) # d else p # dict_set k v d)"

type_synonym vlan_rec = "(string \<times> pyval) list"
type_synonym common_rec = "(string \<times> string) list"

text \<open>\<^verbatim>\<open>v.get(k)\<close> used as a condition.\<close>

definition is_set :: "vlan_rec \<Rightarrow> string \<Rightarrow> bool" where
  "is_set v k = (case dict_get v k of None \<Rightarrow> False | Some x \<Rightarrow> truthy x)"

section \<open>Ingestion: \<^verbatim>\<open>BuildCLI.get_bulkedit_data\<close>\<close>

text \<open>
  \<^verbatim>\<open>_common\<close> and \<^verbatim>\<open>_vlans\<close> are two objects created once, before the loop over the rows, and
  mutated in place; every \<^verbatim>\<open>cli_data[_mac] = {"_common": _common, "vlans": _vlans}\<close> stores
  references to them. The store is therefore explicit: a heap of objects, and entries of
  \<^verbatim>\<open>cli_data\<close> that hold addresses. A \<^verbatim>\<open>vlan_data\<close> dictionary is never mutated after it has
  been appended to \<^verbatim>\<open>_vlans\<close> (the variable is rebound to a new dictionary), so the list holds
  it as a value.
\<close>

type_synonym addr = nat

datatype obj = DictObj common_rec | ListObj "vlan_rec list"

type_synonym heap = "obj list"

definition alloc :: "obj \<Rightarrow> heap \<Rightarrow> addr \<times> heap" where
  "alloc x h = (length h, h @ [x])"

text \<open>\<^verbatim>\<open>_common[k] = v\<close> and \<^verbatim>\<open>_vlans.append(vlan_data)\<close> through a reference.\<close>

definition common_store :: "addr \<Rightarrow> string \<Rightarrow> string \<Rightarrow> heap \<Rightarrow> heap" where
  "common_store a k v h = (case h ! a of DictObj d \<Rightarrow> h[a := DictObj (dict_set k v d)] | ListObj l \<Rightarrow> h)"

definition vlans_append :: "addr \<Rightarrow> vlan_rec \<Rightarrow> heap \<Rightarrow> heap" where
  "vlans_append a r h = (case h ! a of ListObj l \<Rightarrow> h[a := ListObj (l @ [r])] | DictObj d \<Rightarrow> h)"

definition read_common :: "heap \<Rightarrow> addr \<Rightarrow> common_rec" where
  "read_common h a = (case h ! a of DictObj d \<Rightarrow> d | ListObj l \<Rightarrow> [])"

definition read_vlans :: "heap \<Rightarrow> addr \<Rightarrow> vlan_rec list" where
  "read_vlans h a = (case h ! a of ListObj l \<Rightarrow> l | DictObj d \<Rightarrow> [])"

text \<open>
  A value of \<^verbatim>\<open>cli_data\<close>: the empty dict written when a \<^verbatim>\<open>mac_address\<close> cell is read, or
  the dict of the two references written at the end of a row.
\<close>

datatype entry = Empty | Entry addr addr

record ingest =
  heap :: heap
  cli_data :: "(string \<times> entry) list"
  common_ref :: addr
  vlans_ref :: addr
  mac :: string
  exclude_start :: string
  vlan_data :: vlan_rec
  out :: "string list"

definition common_keys :: "string list" where
  "common_keys = [''group'', ''model'', ''hostname'', ''bg_peer_ip'', ''controller_vlan'',
     ''zs_site_to_site_map_name'', ''source_fqdn'']"

definition vlan_prefixes :: "string list" where
  "vlan_prefixes = [''vlan'', ''dhcp'', ''domain'', ''dns'', ''vrrp'', ''access_port'', ''ppoe'']"

definition exclude_line :: "string \<Rightarrow> string \<Rightarrow> string" where
  "exclude_line start v = ''ip dhcp exclude-address '' @ start @ '' '' @ v"

text \<open>\<^verbatim>\<open>d[k] = [v] if k not in d else [*d[k], *[v]]\<close>\<close>

definition append_item :: "string \<Rightarrow> string \<Rightarrow> vlan_rec \<Rightarrow> vlan_rec" where
  "append_item k v d =
     dict_set k (case dict_get d k of None \<Rightarrow> Lst [v] | Some x \<Rightarrow> Lst (elems x @ [v])) d"

text \<open>The body of the loop over the cells of a row (lines 546 to 576).\<close>

definition process_col :: "ingest \<Rightarrow> string \<times> string \<Rightarrow> ingest" where
  "process_col st kv =
     (let k = norm_key (fst kv); v = snd kv in
      if k = ''mac_address'' then
        st\<lparr>mac := v, cli_data := dict_set v Empty (cli_data st)\<rparr>
      else if k \<in> set common_keys then
        st\<lparr>heap := common_store (common_ref st) k v (heap st)\<rparr>
      else if (\<exists>p \<in> set vlan_prefixes. startswith k p) then
        if k = ''vlan_id'' then
          st\<lparr>heap := (if vlan_data st \<noteq> [] then vlans_append (vlans_ref st) (vlan_data st) (heap st)
                      else heap st),
             vlan_data := [(k, Str v)]\<rparr>
        else if startswith k ''dns_server_'' then
          st\<lparr>vlan_data := append_item ''dns_servers'' v (vlan_data st)\<rparr>
        else if startswith k ''dhcp_default_router'' then
          st\<lparr>vlan_data := append_item ''dhcp_def_gws'' v (vlan_data st)\<rparr>
        else if startswith k ''dhcp_exclude_start'' then
          st\<lparr>exclude_start := v\<rparr>
        else if startswith k ''dhcp_exclude_end'' then
          if exclude_start st \<noteq> [] then
            st\<lparr>vlan_data := append_item ''dhcp_excludes'' (exclude_line (exclude_start st) v) (vlan_data st),
               exclude_start := []\<rparr>
          else
            st\<lparr>out := out st @
              [''Validation Error DHCP Exclude End with no preceding start ('' @ v @ '')... Ignoring'']\<rparr>
        else
          st\<lparr>vlan_data := dict_set k (Str v) (vlan_data st)\<rparr>
      else st)"

text \<open>One iteration of the loop over \<^verbatim>\<open>csv_rows[1:]\<close> (lines 544 to 579).\<close>

definition process_row :: "string list \<Rightarrow> ingest \<Rightarrow> string list \<Rightarrow> ingest" where
  "process_row header st data_row =
     (let st1 = foldl process_col (st\<lparr>vlan_data := []\<rparr>) (zip header data_row) in
      st1\<lparr>heap := vlans_append (vlans_ref st1) (vlan_data st1) (heap st1),
          cli_data := dict_set (mac st1) (Entry (common_ref st1) (vlans_ref st1)) (cli_data st1)\<rparr>)"

definition init_ingest :: ingest where
  "init_ingest =
     (let (c, h1) = alloc (DictObj []) [];
          (l, h2) = alloc (ListObj []) h1
      in \<lparr>heap = h2, cli_data = [], common_ref = c, vlans_ref = l, mac = ''error'',
          exclude_start = [], vlan_data = [], out = []\<rparr>)"

definition get_bulkedit_data :: "string list list \<Rightarrow> ingest" where
  "get_bulkedit_data csv_rows =
     (case csv_rows of [] \<Rightarrow> init_ingest
      | header # data_rows \<Rightarrow> foldl (process_row header) init_ingest data_rows)"

text \<open>
  What \<^verbatim>\<open>self.data\<close> shows to a reader after ingestion: each entry with its references
  followed into the final heap. \<^verbatim>\<open>None\<close> stands for the empty dict.
\<close>

type_synonym device = "(common_rec \<times> vlan_rec list) option"

definition resolve :: "heap \<Rightarrow> entry \<Rightarrow> device" where
  "resolve h e = (case e of Empty \<Rightarrow> None | Entry c l \<Rightarrow> Some (read_common h c, read_vlans h l))"

definition data_of :: "ingest \<Rightarrow> (string \<times> device) list" where
  "data_of st = map (\<lambda>(m, e). (m, resolve (heap st) e)) (cli_data st)"

section \<open>Emission and group reconciliation: \<^verbatim>\<open>BuildCLI.build_cmds\<close>\<close>

text \<open>
  \<^verbatim>\<open>build_cmds\<close> appends to \<^verbatim>\<open>self.cmds\<close>, prints diagnostics and calls the session. The state
  is the command list and the trace of prints and session calls, in order; the text of a
  print is recorded without its line ending. An exception leaves the state as it was
  when it was raised.
\<close>

datatype event = Print string | GetDevByType string | GetGroup string | MoveDev string string

record bstate =
  cmds :: "string list"
  trace :: "event list"

datatype outcome = Done bstate | Raised error bstate

fun then_do :: "outcome \<Rightarrow> (bstate \<Rightarrow> outcome) \<Rightarrow> outcome" where
  "then_do (Done s) f = f s"
| "then_do (Raised e s) f = Raised e s"

definition emit :: "string list \<Rightarrow> bstate \<Rightarrow> bstate" where
  "emit xs s = s\<lparr>cmds := cmds s @ xs\<rparr>"

definition say :: "string \<Rightarrow> bstate \<Rightarrow> bstate" where
  "say x s = s\<lparr>trace := trace s @ [Print x]\<rparr>"

definition called :: "event \<Rightarrow> bstate \<Rightarrow> bstate" where
  "called e s = s\<lparr>trace := trace s @ [e]\<rparr>"

text \<open>\<^verbatim>\<open>d[k]\<close>: raises \<^verbatim>\<open>KeyError\<close> when the key is missing.\<close>

definition index :: "(string \<times> 'v) list \<Rightarrow> string \<Rightarrow> bstate \<Rightarrow> ('v \<Rightarrow> outcome) \<Rightarrow> outcome" where
  "index d k s f = (case dict_get d k of None \<Rightarrow> Raised (KeyError k) s | Some x \<Rightarrow> f x)"

text \<open>\<^verbatim>\<open>if v.get(k): self.cmds.append(f"<pre>{v[k]}")\<close>\<close>

definition opt_line :: "vlan_rec \<Rightarrow> string \<Rightarrow> string \<Rightarrow> bstate \<Rightarrow> outcome" where
  "opt_line v k pre s =
     (if is_set v k then index v k s (\<lambda>x. Done (emit [pre @ fmt x] s)) else Done s)"

text \<open>\<^verbatim>\<open>if v.get(k): for x in v[k]: self.cmds.append(f"<pre>{x}")\<close>\<close>

definition iter_lines :: "vlan_rec \<Rightarrow> string \<Rightarrow> string \<Rightarrow> bstate \<Rightarrow> outcome" where
  "iter_lines v k pre s =
     (if is_set v k then index v k s (\<lambda>x. Done (emit (map (\<lambda>g. pre @ g) (elems x)) s)) else Done s)"

text \<open>Lines 609 to 621: the layer-3 interface of the VLAN.\<close>

definition l3_block :: "vlan_rec \<Rightarrow> bstate \<Rightarrow> outcome" where
  "l3_block v s =
     (if is_set v ''vlan_ip'' then
        then_do (if \<not> is_set v ''vlan_subnet''
                 then index v ''vlan_id'' s (\<lambda>i.
                        Done (say (''Validation Error No subnet mask for VLAN '' @ fmt i @ '' '') s))
                 else Done s) (\<lambda>s.
        then_do (index v ''vlan_id'' s (\<lambda>i. index v ''vlan_ip'' s (\<lambda>ip. index v ''vlan_subnet'' s (\<lambda>sn.
                   Done (emit [''interface vlan '' @ fmt i,
                               ''ip address '' @ fmt ip @ '' '' @ fmt sn] s))))) (\<lambda>s.
        then_do (opt_line v ''vlan_interface_description'' ''description '' s) (\<lambda>s.
        then_do (opt_line v ''vlan_helper_addr'' ''ip helper-address '' s) (\<lambda>s.
        then_do (opt_line v ''vlan_interface_operstate'' ''operstate '' s) (\<lambda>s.
        Done (emit [''!''] s))))))
      else Done s)"

text \<open>Lines 623 and 624.\<close>

definition pppoe_block :: "vlan_rec \<Rightarrow> bstate \<Rightarrow> outcome" where
  "pppoe_block v s =
     Done (if is_set v ''pppoe_username'' then say ''Warning PPPoE not supported by this tool yet'' s
           else s)"

text \<open>
  Lines 627 to 630: the interface line of an access port. On a list, \<^verbatim>\<open>in\<close> is membership and
  \<^verbatim>\<open>startswith\<close> does not exist.
\<close>

fun iface_line :: "pyval \<Rightarrow> error + string" where
  "iface_line (Str a) =
     Inr (if \<not> contains ''thernet'' a \<and> \<not> startswith a ''g''
          then ''interface gigabitethernet '' @ a
          else ''interface '' @ a)"
| "iface_line (Lst xs) =
     (if ''thernet'' \<notin> set xs then Inl (AttributeError ''startswith'')
      else Inr (''interface '' @ fmt (Lst xs)))"

text \<open>Lines 626 to 631.\<close>

definition access_block :: "vlan_rec \<Rightarrow> bstate \<Rightarrow> outcome" where
  "access_block v s =
     (if is_set v ''access_port'' then
        index v ''access_port'' s (\<lambda>p.
          case iface_line p of
            Inl e \<Rightarrow> Raised e s
          | Inr line \<Rightarrow> index v ''vlan_id'' s (\<lambda>i.
              Done (emit [line, ''switchport access vlan '' @ fmt i, ''!''] s)))
      else Done s)"

text \<open>Lines 642 to 646: the \<^verbatim>\<open>network\<close> line of a pool.\<close>

definition network_line :: "vlan_rec \<Rightarrow> bstate \<Rightarrow> outcome" where
  "network_line v s =
     (if is_set v ''dhcp_network'' then
        if is_set v ''dhcp_mask'' then
          index v ''dhcp_network'' s (\<lambda>n. index v ''dhcp_mask'' s (\<lambda>m.
            Done (emit [''network '' @ fmt n @ '' '' @ fmt m] s)))
        else if is_set v ''dhcp_network_prefix'' then
          index v ''dhcp_network'' s (\<lambda>n. index v ''dhcp_network_prefix'' s (\<lambda>m.
            Done (emit [''network '' @ fmt n @ '' /'' @ fmt m] s)))
        else Done s
      else Done s)"

text \<open>Lines 633 to 647.\<close>

definition pool_block :: "vlan_rec \<Rightarrow> bstate \<Rightarrow> outcome" where
  "pool_block v s =
     (if is_set v ''dhcp_pool_name'' then
        then_do (index v ''dhcp_pool_name'' s (\<lambda>n. Done (emit [''ip dhcp pool '' @ fmt n] s))) (\<lambda>s.
        then_do (iter_lines v ''dhcp_def_gws'' ''default-router '' s) (\<lambda>s.
        then_do (if is_set v ''dns_servers''
                 then index v ''dns_servers'' s (\<lambda>d.
                        Done (emit [''dns-server '' @ join_with '' '' (elems d)] s))
                 else Done s) (\<lambda>s.
        then_do (opt_line v ''domain_name'' ''domain-name '' s) (\<lambda>s.
        then_do (network_line v s) (\<lambda>s.
        Done (emit [''!''] s))))))
      else Done s)"

text \<open>Lines 649 to 652: the exclude lines, formatted when the data was collected.\<close>

definition excludes_block :: "vlan_rec \<Rightarrow> bstate \<Rightarrow> outcome" where
  "excludes_block v s = iter_lines v ''dhcp_excludes'' [] s"

text \<open>Lines 654 to 661.\<close>

definition vrrp_block :: "vlan_rec \<Rightarrow> bstate \<Rightarrow> outcome" where
  "vrrp_block v s =
     (if is_set v ''vrrp_id'' then
        if is_set v ''vrrp_ip'' then
          then_do (index v ''vrrp_id'' s (\<lambda>r. index v ''vrrp_ip'' s (\<lambda>ip. index v ''vlan_id'' s (\<lambda>i.
                     Done (emit [''vrrp '' @ fmt r, ''ip address '' @ fmt ip, ''vlan '' @ fmt i] s))))) (\<lambda>s.
          then_do (opt_line v ''vrrp_priority'' ''priority '' s) (\<lambda>s.
          Done (emit [''no shutdown'', ''!''] s)))
        else
          index v ''vrrp_id'' s (\<lambda>r. index v ''vlan_id'' s (\<lambda>i.
            Done (say (''Validation Error VRRP ID '' @ fmt r @ '' VLAN '' @ fmt i @
                       '' No VRRP IP provided... Skipped'') s)))
      else Done s)"

text \<open>Lines 663 to 669: features the tool only warns about.\<close>

definition unsupported_block :: "vlan_rec \<Rightarrow> bstate \<Rightarrow> outcome" where
  "unsupported_block v s =
     (let s1 = (if is_set v ''bg_peer_ip'' then say ''bgp peer ip Not Supported by Script yet'' s else s)
      in Done (if is_set v ''zs_site_to_site_map_name'' \<or> is_set v ''source_fqdn''
               then say ''Zscaler Configuration Not Supported by Script Yet'' s1 else s1))"

text \<open>The body of the loop over the VLANs of a device (lines 608 to 669).\<close>

definition build_vlan :: "vlan_rec \<Rightarrow> bstate \<Rightarrow> outcome" where
  "build_vlan v s =
     then_do (index v ''vlan_id'' s (\<lambda>i. Done (emit [''vlan '' @ fmt i, ''!''] s))) (\<lambda>s.
     then_do (l3_block v s) (\<lambda>s.
     then_do (pppoe_block v s) (\<lambda>s.
     then_do (access_block v s) (\<lambda>s.
     then_do (pool_block v s) (\<lambda>s.
     then_do (excludes_block v s) (\<lambda>s.
     then_do (vrrp_block v s) (\<lambda>s.
     unsupported_block v s)))))))"

fun build_vlans :: "vlan_rec list \<Rightarrow> bstate \<Rightarrow> outcome" where
  "build_vlans [] s = Done s"
| "build_vlans (v # vs) s = then_do (build_vlan v s) (build_vlans vs)"

subsection \<open>The session\<close>

text \<open>
  Modelled from the spec: the class \<^verbatim>\<open>Response\<close> that the session's calls return is not
  among the sources, so the device-management collaborator is a parameter with the three
  operations of the spec's section 6: the inventory of a device class as a sequence of
  dicts, the group name of a serial number, and the success flag of a move. Each answer
  may depend on the trace so far. Transport failures of the collaborator are outside
  the model.
\<close>

record session =
  get_dev_by_type :: "event list \<Rightarrow> string \<Rightarrow> (string \<times> string) list list"
  get_group_for_dev_by_serial :: "event list \<Rightarrow> string \<Rightarrow> string"
  move_dev_to_group :: "event list \<Rightarrow> string \<Rightarrow> string \<Rightarrow> bool"

text \<open>
  Lines 592 to 601, for the inventory entries \<^verbatim>\<open>dev_info\<close> whose MAC matched. \<^verbatim>\<open>common\<close> is
  not changed in between, so \<^verbatim>\<open>common['group']\<close> is read once.
\<close>

definition reconcile ::
  "session \<Rightarrow> common_rec \<Rightarrow> string \<Rightarrow> (string \<times> string) list list \<Rightarrow> bstate \<Rightarrow> outcome" where
  "reconcile sess common pretty dev_info s =
     (case dev_info of
        [] \<Rightarrow> Done s
      | info # _ \<Rightarrow>
          index common ''group'' s (\<lambda>g. index info ''serial'' s (\<lambda>serial.
            let cur = get_group_for_dev_by_serial sess (trace s) serial;
                s1 = called (GetGroup serial) s
            in if g = cur then Done (say '' Confirmed'' s1)
               else
                 let s2 = say (''Moving '' @ pretty @ '' to Group '' @ g) (say '' it is *Not*'' s1);
                     res = move_dev_to_group sess (trace s2) g serial;
                     s3 = called (MoveDev g serial) s2
                 in if \<not> res then
                      index common ''hostname'' s3 (\<lambda>h.
                        Done (say (''Error Returned Moving '' @ h @ '' to Group '' @ g) s3))
                    else Done s3)))"

text \<open>Lines 604 and 605.\<close>

definition hostname_block :: "common_rec \<Rightarrow> bstate \<Rightarrow> outcome" where
  "hostname_block common s =
     (case dict_get common ''hostname'' of
        None \<Rightarrow> Done s
      | Some h \<Rightarrow> if h \<noteq> [] then Done (emit [''hostname '' @ h, ''!''] s) else Done s)"

text \<open>The body of the loop over the devices (lines 585 to 669).\<close>

definition build_dev :: "session \<Rightarrow> string \<Rightarrow> device \<Rightarrow> bstate \<Rightarrow> outcome" where
  "build_dev sess dev d s =
     (case d of
        None \<Rightarrow> Raised (KeyError ''_common'') s
      | Some (common, vlans) \<Rightarrow>
          let pretty = (case dict_get common ''hostname'' of None \<Rightarrow> dev | Some h \<Rightarrow> h) in
          index common ''group'' s (\<lambda>g.
            let s1 = say (''Verifying '' @ pretty @ '' is in Group '' @ g @ ''...'') s;
                gateways = get_dev_by_type sess (trace s1) ''gateway'';
                s2 = called (GetDevByType ''gateway'') s1;
                dev_info = filter (\<lambda>d. lower (case dict_get d ''macaddr'' of None \<Rightarrow> [] | Some m \<Rightarrow> m)
                                         = lower dev) gateways
            in then_do (reconcile sess common pretty dev_info s2) (\<lambda>s3.
               then_do (hostname_block common (say (''Building cmds for '' @ pretty) s3))
                 (build_vlans vlans))))"

fun build_devs :: "session \<Rightarrow> (string \<times> device) list \<Rightarrow> bstate \<Rightarrow> outcome" where
  "build_devs sess [] s = Done s"
| "build_devs sess (p # ps) s = then_do (build_dev sess (fst p) (snd p) s) (build_devs sess ps)"

definition build_cmds :: "session \<Rightarrow> (string \<times> device) list \<Rightarrow> outcome" where
  "build_cmds sess data = build_devs sess data \<lparr>cmds = [], trace = []\<rparr>"

text \<open>\<^verbatim>\<open>BuildCLI(session=..., filename=...)\<close>: ingestion, then \<^verbatim>\<open>build_cmds\<close> on its result.\<close>

definition BuildCLI :: "session \<Rightarrow> string list list \<Rightarrow> outcome" where
  "BuildCLI sess csv_rows = build_cmds sess (data_of (get_bulkedit_data csv_rows))"

subsection \<open>Sessions used in the examples\<close>

text \<open>An inventory without gateways: no device is matched and no group is looked up.\<close>

definition no_gateways :: session where
  "no_gateways = \<lparr>get_dev_by_type = (\<lambda>t k. []), get_group_for_dev_by_serial = (\<lambda>t s. []),
     move_dev_to_group = (\<lambda>t g s. True)\<rparr>"

text \<open>One gateway, assigned to group \<^verbatim>\<open>G0\<close>, and a service that answers every move with "not ok".\<close>

definition refusing_session :: session where
  "refusing_session =
     \<lparr>get_dev_by_type = (\<lambda>t k. [[(''macaddr'', ''AA:BB''), (''serial'', ''S1'')]]),
      get_group_for_dev_by_serial = (\<lambda>t s. ''G0''),
      move_dev_to_group = (\<lambda>t g s. False)\<rparr>"

subsection \<open>Files used in the examples\<close>

text \<open>Two devices, one row each.\<close>

definition two_devices :: "string list list" where
  "two_devices = [[''mac_address'', ''group'', ''hostname'', ''vlan_id''],
                  [''aa:aa'', ''G1'', ''gw1'', ''10''],
                  [''bb:bb'', ''G2'', ''gw2'', ''20'']]"

text \<open>Two devices that both configure VLAN 10, the first with VRRP.\<close>

definition shared_vlan_rows :: "string list list" where
  "shared_vlan_rows =
     [[''mac_address'', ''group'', ''vlan_id'', ''vrrp_id'', ''vrrp_ip''],
      [''aa:aa'', ''G1'', ''10'', ''5'', ''10.0.0.254''],
      [''bb:bb'', ''G1'', ''10'', [], []]]"

text \<open>A VLAN with VRRP and an address, in a file without \<^verbatim>\<open>vlan_subnet\<close> column.\<close>

definition vrrp_no_subnet_rows :: "string list list" where
  "vrrp_no_subnet_rows =
     [[''mac_address'', ''group'', ''vlan_id'', ''vlan_ip'', ''vrrp_id''],
      [''aa:bb'', ''G1'', ''10'', ''10.0.0.1'', ''5'']]"

text \<open>An access port named \<^verbatim>\<open>Ethernet1/1\<close>, and one in a file without \<^verbatim>\<open>vlan_subnet\<close> column.\<close>

definition ethernet_port_rows :: "string list list" where
  "ethernet_port_rows =
     [[''mac_address'', ''group'', ''vlan_id'', ''access_port''],
      [''aa:bb'', ''G1'', ''10'', ''Ethernet1/1'']]"

definition port_no_subnet_rows :: "string list list" where
  "port_no_subnet_rows =
     [[''mac_address'', ''group'', ''vlan_id'', ''vlan_ip'', ''access_port''],
      [''aa:bb'', ''G1'', ''10'', ''10.0.0.1'', ''1/1/3'']]"






section \<open>Notions used to state the properties\<close>

text \<open>
  The sequence that \<^verbatim>\<open>for _line in v["dhcp_excludes"]\<close> runs through; empty when the key is
  missing.
\<close>

definition exclude_lines :: "vlan_rec \<Rightarrow> string list" where
  "exclude_lines v = (case dict_get v ''dhcp_excludes'' of None \<Rightarrow> [] | Some x \<Rightarrow> elems x)"

text \<open>
  A column that may stand between a \<^verbatim>\<open>dhcp_exclude_start\<close> cell and the matching
  \<^verbatim>\<open>dhcp_exclude_end\<close> cell of a VLAN block: it opens no new VLAN, is no exclude boundary
  and does not overwrite the \<^verbatim>\<open>dhcp_excludes\<close> field.
\<close>

definition passive_key :: "string \<Rightarrow> bool" where
  "passive_key k =
     (let n = norm_key k in
      n \<noteq> ''vlan_id'' \<and> n \<noteq> ''dhcp_excludes'' \<and>
      \<not> startswith n ''dhcp_exclude_start'' \<and> \<not> startswith n ''dhcp_exclude_end'')"



text \<open>
  The \<^verbatim>\<open>vlan_id\<close> cells of a row, in column order, and those of the data rows of a file, in
  file order.
\<close>

definition row_ids :: "(string \<times> string) list \<Rightarrow> string list" where
  "row_ids kvs = map snd (filter (\<lambda>kv. norm_key (fst kv) = ''vlan_id'') kvs)"

definition vlan_id_cells :: "string list \<Rightarrow> string list list \<Rightarrow> string list" where
  "vlan_id_cells header data_rows = concat (map (\<lambda>row. row_ids (zip header row)) data_rows)"

text \<open>The \<^verbatim>\<open>vlan_id\<close> values of the records of a VLAN list that have one, in list order.\<close>

definition ids_of :: "vlan_rec list \<Rightarrow> pyval list" where
  "ids_of vs = List.map_filter (\<lambda>v. dict_get v ''vlan_id'') vs"

text \<open>
  What a step of the emitter adds when it is run from the empty state: its commands
  and its prints. The steps of a VLAN's block never read the state, so from any state
  they append exactly these (lemma \<open>uniform_DoneD\<close> below).
\<close>

definition empty_state :: bstate where
  "empty_state = \<lparr>cmds = [], trace = []\<rparr>"

definition state_of :: "outcome \<Rightarrow> bstate" where
  "state_of r = (case r of Done t \<Rightarrow> t | Raised e t \<Rightarrow> t)"

definition added :: "(bstate \<Rightarrow> outcome) \<Rightarrow> string list" where
  "added f = cmds (state_of (f empty_state))"

definition printed :: "(bstate \<Rightarrow> outcome) \<Rightarrow> event list" where
  "printed f = trace (state_of (f empty_state))"

text \<open>A command line of the form \<^verbatim>\<open>vlan <id>\<close>.\<close>

definition is_vlan_line :: "string \<Rightarrow> bool" where
  "is_vlan_line c = startswith c ''vlan ''"

text \<open>
  The \<^verbatim>\<open>vlan <id>\<close> lines of one record: the line that opens its block (line 608), and the
  line inside its VRRP block (line 656) when that block is emitted.
\<close>

definition vlan_lines :: "vlan_rec \<Rightarrow> string list" where
  "vlan_lines v =
     (case dict_get v ''vlan_id'' of
        None \<Rightarrow> []
      | Some i \<Rightarrow> (''vlan '' @ fmt i) #
          (if is_set v ''vrrp_id'' \<and> is_set v ''vrrp_ip'' then [''vlan '' @ fmt i] else []))"

text \<open>The distinct \<^verbatim>\<open>vlan_id\<close> values of a VLAN list.\<close>

definition distinct_vlan_ids :: "vlan_rec list \<Rightarrow> pyval option list" where
  "distinct_vlan_ids vs = remdups (map (\<lambda>v. dict_get v ''vlan_id'') vs)"

text \<open>
  Invariant of ingestion: the two buffers sit at the addresses they were allocated at,
  and every entry of \<^verbatim>\<open>cli_data\<close> is the empty dict or refers to them.
\<close>

definition shared_inv :: "ingest \<Rightarrow> bool" where
  "shared_inv st \<longleftrightarrow>
     common_ref st = common_ref init_ingest \<and> vlans_ref st = vlans_ref init_ingest \<and>
     length (heap st) = 2 \<and>
     (\<exists>d. heap st ! 0 = DictObj d) \<and> (\<exists>l. heap st ! 1 = ListObj l) \<and>
     (\<forall>p \<in> set (cli_data st). snd p = Empty \<or> snd p = Entry (common_ref init_ingest) (vlans_ref init_ingest))"

text \<open>
  Invariant of ingestion: no exclude line of a record is of the form \<^verbatim>\<open>vlan <id>\<close> (it is a
  rendered \<^verbatim>\<open>ip dhcp exclude-address\<close> line, or a single character of a cell stored under
  \<^verbatim>\<open>dhcp_excludes\<close>).
\<close>

definition excl_ok :: "vlan_rec \<Rightarrow> bool" where
  "excl_ok v \<longleftrightarrow> (\<forall>l \<in> set (exclude_lines v). \<not> is_vlan_line l)"

definition excl_inv :: "ingest \<Rightarrow> bool" where
  "excl_inv st \<longleftrightarrow> excl_ok (vlan_data st) \<and> (\<forall>v \<in> set (read_vlans (heap st) 1). excl_ok v)"

text \<open>
  A step that finishes in \<^verbatim>\<open>s'\<close> has added the \<^verbatim>\<open>vlan <id>\<close> lines \<^verbatim>\<open>X\<close> to the commands of
  \<^verbatim>\<open>s\<close>, among other lines.
\<close>

definition adds :: "outcome \<Rightarrow> bstate \<Rightarrow> string list \<Rightarrow> bool" where
  "adds r s X \<longleftrightarrow> (\<forall>s'. r = Done s' \<longrightarrow> filter is_vlan_line (cmds s') = filter is_vlan_line (cmds s) @ X)"

text \<open>
  A step is uniform when running it from a state is running it from the empty state and
  appending the result to that state; it is silent when it prints nothing; a state grows
  into another when commands and trace are only appended to.
\<close>

definition after :: "bstate \<Rightarrow> bstate \<Rightarrow> bstate" where
  "after s t = \<lparr>cmds = cmds s @ cmds t, trace = trace s @ trace t\<rparr>"

fun shift :: "bstate \<Rightarrow> outcome \<Rightarrow> outcome" where
  "shift s (Done t) = Done (after s t)"
| "shift s (Raised e t) = Raised e (after s t)"

definition uniform :: "(bstate \<Rightarrow> outcome) \<Rightarrow> bool" where
  "uniform f \<longleftrightarrow> (\<forall>s. f s = shift s (f empty_state))"

definition silent :: "(bstate \<Rightarrow> outcome) \<Rightarrow> bool" where
  "silent f \<longleftrightarrow> (\<forall>s. trace (state_of (f s)) = trace s)"

definition grows :: "bstate \<Rightarrow> bstate \<Rightarrow> bool" where
  "grows s s' \<longleftrightarrow> (\<exists>c t. cmds s' = cmds s @ c \<and> trace s' = trace s @ t)"

section \<open>Basic facts about the operations\<close>

lemma index_Some: "dict_get d k = Some x \<Longrightarrow> index d k s f = f x"
  by (simp add: index_def)

lemma is_set_Some: "dict_get v k = Some x \<Longrightarrow> is_set v k = truthy x"
  by (simp add: is_set_def)

lemma is_set_D: "is_set v k \<Longrightarrow> \<exists>x. dict_get v k = Some x \<and> truthy x"
  by (auto simp: is_set_def split: option.splits)

lemma opt_line_Done:
  "opt_line v k pre s =
     Done (emit (case dict_get v k of None \<Rightarrow> [] | Some x \<Rightarrow> if truthy x then [pre @ fmt x] else []) s)"
  by (auto simp: opt_line_def is_set_def index_def emit_def split: option.splits)

section \<open>The emitter\<close>

text \<open>
  The layer-3 block of a VLAN with an address: when the \<^verbatim>\<open>vlan_subnet\<close> cell is present and
  empty, the validation error is printed and the \<^verbatim>\<open>ip address\<close> line is emitted with an empty
  subnet; when the key is missing, the block raises after printing.
\<close>

lemma l3_block_empty_subnet:
  assumes "dict_get v ''vlan_id'' = Some i" and "dict_get v ''vlan_ip'' = Some ip" and "truthy ip"
      and "dict_get v ''vlan_subnet'' = Some (Str [])"
  shows "\<exists>s'. l3_block v s = Done s'
           \<and> trace s' = trace s @ [Print (''Validation Error No subnet mask for VLAN '' @ fmt i @ '' '')]
           \<and> take 2 (drop (length (cmds s)) (cmds s')) = [''interface vlan '' @ fmt i, ''ip address '' @ fmt ip @ '' '']"
  using assms
  by (simp add: l3_block_def is_set_Some index_Some opt_line_Done say_def emit_def)

lemma l3_block_missing_subnet:
  assumes "dict_get v ''vlan_id'' = Some i" and "dict_get v ''vlan_ip'' = Some ip" and "truthy ip"
      and "dict_get v ''vlan_subnet'' = None"
  shows "l3_block v s = Raised (KeyError ''vlan_subnet'')
           (say (''Validation Error No subnet mask for VLAN '' @ fmt i @ '' '') s)"
  using assms
  by (simp add: l3_block_def is_set_Some is_set_def index_def)

text \<open>
  C3. A VLAN whose \<^verbatim>\<open>vlan_ip\<close> is set and whose \<^verbatim>\<open>vlan_subnet\<close> key is absent: the validation
  error is printed, and then the \<^verbatim>\<open>ip address\<close> line is never emitted, because formatting it
  reads \<^verbatim>\<open>v['vlan_subnet']\<close> and raises. The run stops with the VLAN's opening lines only.
  The file below has no \<^verbatim>\<open>vlan_subnet\<close> column.
\<close>

theorem missing_subnet_key_aborts:
  "BuildCLI no_gateways
     [[''mac_address'', ''group'', ''vlan_id'', ''vlan_ip''], [''aa:bb'', ''G1'', ''10'', ''10.0.0.1'']]
   = Raised (KeyError ''vlan_subnet'')
       \<lparr>cmds = [''vlan 10'', ''!''],
        trace = [Print ''Verifying aa:bb is in Group G1...'', GetDevByType ''gateway'',
                 Print ''Building cmds for aa:bb'',
                 Print ''Validation Error No subnet mask for VLAN 10 '']\<rparr>"
  by code_simp

text \<open>
  The VRRP block of a record with \<^verbatim>\<open>vrrp_id\<close> set and \<^verbatim>\<open>vlan_id\<close> present, from any state:
  without \<^verbatim>\<open>vrrp_ip\<close> it prints the validation error and adds no command; with it, it
  prints nothing and adds the lines of the block.
\<close>

lemma vrrp_block_cases:
  assumes "dict_get v ''vrrp_id'' = Some r" and "truthy r" and "dict_get v ''vlan_id'' = Some i"
  shows "(\<not> is_set v ''vrrp_ip'' \<longrightarrow>
            (\<exists>s'. vrrp_block v s = Done s' \<and> cmds s' = cmds s \<and>
                  trace s' = trace s @ [Print (''Validation Error VRRP ID '' @ fmt r @ '' VLAN '' @ fmt i @
                                               '' No VRRP IP provided... Skipped'')]))
       \<and> (\<forall>ip. dict_get v ''vrrp_ip'' = Some ip \<and> truthy ip \<longrightarrow>
            (\<exists>s'. vrrp_block v s = Done s' \<and> trace s' = trace s \<and>
                  cmds s' = cmds s @ [''vrrp '' @ fmt r, ''ip address '' @ fmt ip, ''vlan '' @ fmt i]
                     @ (case dict_get v ''vrrp_priority'' of None \<Rightarrow> []
                        | Some p \<Rightarrow> if truthy p then [''priority '' @ fmt p] else [])
                     @ [''no shutdown'', ''!'']))"
  using assms
  by (auto simp: vrrp_block_def is_set_Some index_Some opt_line_Done say_def emit_def split: option.splits)

text \<open>
  The access block of a record whose \<^verbatim>\<open>access_port\<close> is a non-empty string, from any state.
\<close>

lemma access_block_lines:
  assumes "dict_get v ''access_port'' = Some (Str a)" and "a \<noteq> []" and "dict_get v ''vlan_id'' = Some i"
  shows "\<exists>s'. access_block v s = Done s' \<and> trace s' = trace s \<and>
           cmds s' = cmds s @
             [if \<not> contains ''thernet'' a \<and> \<not> startswith a ''g''
              then ''interface gigabitethernet '' @ a else ''interface '' @ a,
              ''switchport access vlan '' @ fmt i, ''!'']"
  using assms by (simp add: access_block_def is_set_Some index_Some emit_def)

section \<open>The driver and the group reconciler\<close>

text \<open>
  For a matched gateway with a serial number, the reconciler emits no command, and it
  issues the move exactly when the current group differs from the desired one. It ends
  normally, or with \<^verbatim>\<open>KeyError('hostname')\<close> from the report of a refused move.
\<close>

lemma reconcile_moves_iff:
  assumes "dict_get common ''group'' = Some g" and "dict_get info ''serial'' = Some serial"
  shows "\<exists>s' new. (reconcile sess common pretty (info # rest) s = Done s'
                     \<or> reconcile sess common pretty (info # rest) s = Raised (KeyError ''hostname'') s')
           \<and> cmds s' = cmds s \<and> trace s' = trace s @ new
           \<and> (MoveDev g serial \<in> set new \<longleftrightarrow> g \<noteq> get_group_for_dev_by_serial sess (trace s) serial)"
  using assms
  by (auto simp: reconcile_def index_def Let_def say_def called_def split: option.splits)

text \<open>
  C7. A matched gateway whose group differs, a move that the service refuses, and a device
  without \<^verbatim>\<open>hostname\<close>: the move is issued, and the report of its failure formats
  \<^verbatim>\<open>common['hostname']\<close> and raises. No command is emitted for the device.
\<close>

theorem failed_move_without_hostname_aborts:
  "BuildCLI refusing_session [[''mac_address'', ''group'', ''vlan_id''], [''aa:bb'', ''G1'', ''10'']]
   = Raised (KeyError ''hostname'')
       \<lparr>cmds = [],
        trace = [Print ''Verifying aa:bb is in Group G1...'', GetDevByType ''gateway'', GetGroup ''S1'',
                 Print '' it is *Not*'', Print ''Moving aa:bb to Group G1'', MoveDev ''G1'' ''S1'']\<rparr>"
  by code_simp

text \<open>
  C10. For every device whose common attributes lack the \<^verbatim>\<open>group\<close> key, the driver raises
  \<^verbatim>\<open>KeyError('group')\<close> on its first access to the attribute, with the state unchanged: no
  command has been emitted for the device, nothing printed, no session call made; and
  the loop over the devices stops there.
\<close>

theorem missing_group_aborts:
  assumes "dict_get common ''group'' = None"
  shows "build_dev sess dev (Some (common, vlans)) s = Raised (KeyError ''group'') s
       \<and> build_devs sess ((dev, Some (common, vlans)) # rest) s = Raised (KeyError ''group'') s"
  using assms by (simp add: build_dev_def index_def)

theorem missing_group_aborts_witness:
  "dict_get [(''hostname'', ''gw1'')] ''group'' = None
   \<and> build_devs refusing_session
        [(''aa:bb'', Some ([(''hostname'', ''gw1'')], [[(''vlan_id'', Str ''10'')]])),
         (''cc:dd'', Some ([(''group'', ''G1'')], []))]
        \<lparr>cmds = [''hostname gw0'', ''!''], trace = []\<rparr>
     = Raised (KeyError ''group'') \<lparr>cmds = [''hostname gw0'', ''!''], trace = []\<rparr>"
  using missing_group_aborts [of "[(''hostname'', ''gw1'')]" refusing_session "''aa:bb''"
      "[[(''vlan_id'', Str ''10'')]]" "\<lparr>cmds = [''hostname gw0'', ''!''], trace = []\<rparr>"
      "[(''cc:dd'', Some ([(''group'', ''G1'')], []))]"]
  by (simp add: dict_get_def)

section \<open>Ingestion\<close>

text \<open>
  C8. The key \<^verbatim>\<open>pppoe_username\<close> starts with none of the prefixes that route a column into
  VLAN handling (the list has \<^verbatim>\<open>ppoe\<close>), so the column is ignored: the VLAN record of the
  file below has no \<^verbatim>\<open>pppoe_username\<close> field and the emitter prints no warning for it.
\<close>

theorem pppoe_username_column_dropped:
  "\<not> (\<exists>p \<in> set vlan_prefixes. startswith ''pppoe_username'' p) \<and>
   data_of (get_bulkedit_data
     [[''mac_address'', ''group'', ''vlan_id'', ''pppoe_username''], [''aa:bb'', ''G1'', ''10'', ''user'']])
   = [(''aa:bb'', Some ([(''group'', ''G1'')], [[(''vlan_id'', Str ''10'')]]))] \<and>
   BuildCLI no_gateways
     [[''mac_address'', ''group'', ''vlan_id'', ''pppoe_username''], [''aa:bb'', ''G1'', ''10'', ''user'']]
   = Done \<lparr>cmds = [''vlan 10'', ''!''],
            trace = [Print ''Verifying aa:bb is in Group G1...'', GetDevByType ''gateway'',
                     Print ''Building cmds for aa:bb'']\<rparr>"
  by code_simp

text \<open>
  C9. A blank line at the end of the file is a row without cells: the row's empty
  \<^verbatim>\<open>vlan_data\<close> is appended to the VLAN list, a record without \<^verbatim>\<open>vlan_id\<close>, and the emitter
  raises on it after the commands of the first VLAN.
\<close>

theorem blank_row_appends_record_without_vlan_id:
  "data_of (get_bulkedit_data [[''mac_address'', ''group'', ''vlan_id''], [''aa:bb'', ''G1'', ''10''], []])
   = [(''aa:bb'', Some ([(''group'', ''G1'')], [[(''vlan_id'', Str ''10'')], []]))] \<and>
   BuildCLI no_gateways [[''mac_address'', ''group'', ''vlan_id''], [''aa:bb'', ''G1'', ''10''], []]
   = Raised (KeyError ''vlan_id'')
       \<lparr>cmds = [''vlan 10'', ''!''],
        trace = [Print ''Verifying aa:bb is in Group G1...'', GetDevByType ''gateway'',
                 Print ''Building cmds for aa:bb'']\<rparr>"
  by code_simp

subsection \<open>Pairing of the DHCP exclude boundaries\<close>

lemma startswith_iff: "startswith s p \<longleftrightarrow> (\<exists>r. s = p @ r)"
  unfolding startswith_def
  by (metis append_eq_conv_conj)

lemma dict_get_dict_set: "dict_get (dict_set k v d) k' = (if k' = k then Some v else dict_get d k')"
  by (induction d) (auto simp: dict_get_def)

lemma elems_not_truthy: "\<not> truthy x \<Longrightarrow> elems x = []"
  by (cases x) auto

lemma emit_Nil: "emit [] s = s"
  by (simp add: emit_def)

lemma excludes_block_Done: "excludes_block v s = Done (emit (exclude_lines v) s)"
  by (auto simp: excludes_block_def iter_lines_def is_set_def index_def exclude_lines_def
        elems_not_truthy emit_Nil split: option.splits)

lemma exclude_lines_append_item_other:
  "k \<noteq> ''dhcp_excludes'' \<Longrightarrow> exclude_lines (append_item k v d) = exclude_lines d"
  by (simp add: exclude_lines_def append_item_def dict_get_dict_set)

lemma exclude_lines_append_item:
  "exclude_lines (append_item ''dhcp_excludes'' v d) = exclude_lines d @ [v]"
  by (simp add: exclude_lines_def append_item_def dict_get_dict_set split: option.splits)

lemma exclude_lines_dict_set_other:
  "k \<noteq> ''dhcp_excludes'' \<Longrightarrow> exclude_lines (dict_set k x d) = exclude_lines d"
  by (simp add: exclude_lines_def dict_get_dict_set)

lemma process_col_start:
  assumes "startswith (norm_key k) ''dhcp_exclude_start''"
  shows "process_col st (k, v) = st\<lparr>exclude_start := v\<rparr>"
proof -
  from assms obtain r where r: "norm_key k = ''dhcp_exclude_start'' @ r"
    by (auto simp: startswith_iff)
  show ?thesis
    by (simp add: process_col_def r startswith_def common_keys_def vlan_prefixes_def)
qed

lemma process_col_end:
  assumes "startswith (norm_key k) ''dhcp_exclude_end''"
  shows "process_col st (k, v) =
     (if exclude_start st \<noteq> [] then
        st\<lparr>vlan_data := append_item ''dhcp_excludes'' (exclude_line (exclude_start st) v) (vlan_data st),
           exclude_start := []\<rparr>
      else st\<lparr>out := out st @
              [''Validation Error DHCP Exclude End with no preceding start ('' @ v @ '')... Ignoring'']\<rparr>)"
proof -
  from assms obtain r where r: "norm_key k = ''dhcp_exclude_end'' @ r"
    by (auto simp: startswith_iff)
  show ?thesis
    by (simp add: process_col_def r startswith_def common_keys_def vlan_prefixes_def)
qed

lemma process_col_passive:
  assumes "passive_key k"
  shows "exclude_lines (vlan_data (process_col st (k, v))) = exclude_lines (vlan_data st)
       \<and> exclude_start (process_col st (k, v)) = exclude_start st
       \<and> out (process_col st (k, v)) = out st"
  using assms
  by (simp add: process_col_def passive_key_def Let_def exclude_lines_append_item_other
        exclude_lines_dict_set_other)

lemma foldl_passive:
  assumes "\<forall>kv \<in> set mid. passive_key (fst kv)"
  shows "exclude_lines (vlan_data (foldl process_col st mid)) = exclude_lines (vlan_data st)
       \<and> exclude_start (foldl process_col st mid) = exclude_start st
       \<and> out (foldl process_col st mid) = out st"
  using assms
proof (induction mid arbitrary: st)
  case Nil
  then show ?case by simp
next
  case (Cons kv mid)
  then show ?case
    using process_col_passive [of "fst kv" st "snd kv"] by simp
qed

text \<open>
  The columns of a row, from any state: a \<^verbatim>\<open>dhcp_exclude_start\<close> cell with a value, passive
  columns, then a \<^verbatim>\<open>dhcp_exclude_end\<close> cell append one rendered line to the working record and
  clear the pending start; an end cell without a pending start only prints the report.
\<close>

lemma exclude_pairing_cols:
  assumes "startswith (norm_key k1) ''dhcp_exclude_start''"
      and "startswith (norm_key k2) ''dhcp_exclude_end''"
      and "start \<noteq> []"
      and "\<forall>kv \<in> set mid. passive_key (fst kv)"
  shows "(let st' = foldl process_col st ((k1, start) # mid @ [(k2, v)]) in
            exclude_lines (vlan_data st')
              = exclude_lines (vlan_data st) @ [''ip dhcp exclude-address '' @ start @ '' '' @ v]
          \<and> exclude_start st' = [] \<and> out st' = out st)
       \<and> (exclude_start st = [] \<longrightarrow>
            process_col st (k2, v) = st\<lparr>out := out st @
              [''Validation Error DHCP Exclude End with no preceding start ('' @ v @ '')... Ignoring'']\<rparr>)
       \<and> excludes_block r s = Done (s\<lparr>cmds := cmds s @ exclude_lines r\<rparr>)"
proof -
  let ?st1 = "process_col st (k1, start)"
  let ?st2 = "foldl process_col ?st1 mid"
  have st1: "?st1 = st\<lparr>exclude_start := start\<rparr>"
    using assms(1) by (rule process_col_start)
  have mid: "exclude_lines (vlan_data ?st2) = exclude_lines (vlan_data st)"
            "exclude_start ?st2 = start" "out ?st2 = out st"
    using foldl_passive [OF assms(4), of ?st1] by (simp_all add: st1)
  have "process_col ?st2 (k2, v) =
          ?st2\<lparr>vlan_data := append_item ''dhcp_excludes'' (exclude_line start v) (vlan_data ?st2),
               exclude_start := []\<rparr>"
    using process_col_end [OF assms(2), of ?st2 v] mid(2) assms(3) by simp
  then have pair: "exclude_lines (vlan_data (process_col ?st2 (k2, v)))
                     = exclude_lines (vlan_data st) @ [exclude_line start v]"
       "exclude_start (process_col ?st2 (k2, v)) = []" "out (process_col ?st2 (k2, v)) = out st"
    using mid by (simp_all add: exclude_lines_append_item)
  have "foldl process_col st ((k1, start) # mid @ [(k2, v)]) = process_col ?st2 (k2, v)"
    by simp
  with pair have A: "let st' = foldl process_col st ((k1, start) # mid @ [(k2, v)]) in
            exclude_lines (vlan_data st')
              = exclude_lines (vlan_data st) @ [''ip dhcp exclude-address '' @ start @ '' '' @ v]
          \<and> exclude_start st' = [] \<and> out st' = out st"
    by (simp add: exclude_line_def)
  have B: "exclude_start st = [] \<longrightarrow>
            process_col st (k2, v) = st\<lparr>out := out st @
              [''Validation Error DHCP Exclude End with no preceding start ('' @ v @ '')... Ignoring'']\<rparr>"
    using process_col_end [OF assms(2), of st v] by simp
  have C: "excludes_block r s = Done (s\<lparr>cmds := cmds s @ exclude_lines r\<rparr>)"
    by (simp add: excludes_block_Done emit_def)
  from A B C show ?thesis by blast
qed

subsection \<open>The shared buffers\<close>

lemma init_refs: "common_ref init_ingest = 0" "vlans_ref init_ingest = 1"
  by (simp_all add: init_ingest_def alloc_def)

lemma shared_inv_init: "shared_inv init_ingest"
  by (simp add: shared_inv_def init_refs) (simp add: init_ingest_def alloc_def)

lemma set_dict_set: "p \<in> set (dict_set k v d) \<Longrightarrow> p = (k, v) \<or> p \<in> set d"
  by (induction d) (auto split: if_splits)

lemma heap_shape_common_store:
  assumes "length h = 2" "h ! 0 = DictObj d" "h ! 1 = ListObj l"
  shows "length (common_store 0 k v h) = 2 \<and> (\<exists>d'. common_store 0 k v h ! 0 = DictObj d')
       \<and> common_store 0 k v h ! 1 = ListObj l"
  using assms by (simp add: common_store_def)

lemma heap_shape_vlans_append:
  assumes "length h = 2" "h ! 0 = DictObj d" "h ! 1 = ListObj l"
  shows "length (vlans_append 1 r h) = 2 \<and> vlans_append 1 r h ! 0 = DictObj d
       \<and> vlans_append 1 r h ! 1 = ListObj (l @ [r])"
  using assms by (simp add: vlans_append_def)

lemma read_vlans_append:
  assumes "length h = 2" "h ! 1 = ListObj l"
  shows "read_vlans (vlans_append 1 r h) 1 = l @ [r]"
  using assms by (simp add: vlans_append_def read_vlans_def)

lemma shared_inv_process_col:
  assumes "shared_inv st"
  shows "shared_inv (process_col st kv)
       \<and> length (read_vlans (heap st) 1) \<le> length (read_vlans (heap (process_col st kv)) 1)"
proof -
  from assms obtain d l where h: "length (heap st) = 2" "heap st ! 0 = DictObj d" "heap st ! 1 = ListObj l"
    and r: "common_ref st = 0" "vlans_ref st = 1"
    by (auto simp: shared_inv_def init_refs)
  note cs = heap_shape_common_store [OF h] and va = heap_shape_vlans_append [OF h]
  show ?thesis
    using assms cs va h
    by (auto simp: shared_inv_def init_refs process_col_def Let_def read_vlans_def r
          dest!: set_dict_set)
qed


lemma shared_inv_cols:
  assumes "shared_inv st"
  shows "shared_inv (foldl process_col st kvs)
       \<and> length (read_vlans (heap st) 1) \<le> length (read_vlans (heap (foldl process_col st kvs)) 1)"
  using assms
proof (induction kvs arbitrary: st)
  case Nil
  then show ?case by simp
next
  case (Cons kv kvs)
  from shared_inv_process_col [OF Cons.prems, of kv] Cons.IH [of "process_col st kv"]
  show ?case by auto
qed

lemma shared_inv_reset: "shared_inv st \<Longrightarrow> shared_inv (st\<lparr>vlan_data := []\<rparr>)"
  by (simp add: shared_inv_def)

lemma shared_inv_process_row:
  assumes "shared_inv st"
  shows "shared_inv (process_row header st row)
       \<and> Suc (length (read_vlans (heap st) 1)) \<le> length (read_vlans (heap (process_row header st row)) 1)"
proof -
  let ?st1 = "foldl process_col (st\<lparr>vlan_data := []\<rparr>) (zip header row)"
  from shared_inv_cols [OF shared_inv_reset [OF assms], of "zip header row"]
  have inv1: "shared_inv ?st1" and len: "length (read_vlans (heap st) 1) \<le> length (read_vlans (heap ?st1) 1)"
    by simp_all
  from inv1 obtain d l where h: "length (heap ?st1) = 2" "heap ?st1 ! 0 = DictObj d" "heap ?st1 ! 1 = ListObj l"
    and r: "common_ref ?st1 = 0" "vlans_ref ?st1 = 1"
    by (auto simp: shared_inv_def init_refs)
  note va = heap_shape_vlans_append [OF h]
  have "shared_inv (process_row header st row)"
    using inv1 va by (auto simp: process_row_def Let_def shared_inv_def init_refs r dest!: set_dict_set)
  moreover have "read_vlans (heap (process_row header st row)) 1 = l @ [vlan_data ?st1]"
    using va by (simp add: process_row_def Let_def r read_vlans_def)
  moreover have "read_vlans (heap ?st1) 1 = l"
    using h by (simp add: read_vlans_def)
  ultimately show ?thesis using len by simp
qed

lemma shared_inv_rows:
  assumes "shared_inv st"
  shows "shared_inv (foldl (process_row header) st rows)
       \<and> length rows + length (read_vlans (heap st) 1)
           \<le> length (read_vlans (heap (foldl (process_row header) st rows)) 1)"
  using assms
proof (induction rows arbitrary: st)
  case Nil
  then show ?case by simp
next
  case (Cons row rows)
  from shared_inv_process_row [OF Cons.prems, of header row] Cons.IH [of "process_row header st row"]
  show ?case by auto
qed

lemma shared_inv_get_bulkedit_data:
  "shared_inv (get_bulkedit_data csv_rows)
   \<and> length (tl csv_rows) \<le> length (read_vlans (heap (get_bulkedit_data csv_rows)) 1)"
proof (cases csv_rows)
  case Nil
  then show ?thesis by (simp add: get_bulkedit_data_def shared_inv_init)
next
  case (Cons header data_rows)
  with shared_inv_rows [OF shared_inv_init, of header data_rows]
  show ?thesis by (simp add: get_bulkedit_data_def)
qed

text \<open>
  C2. After ingestion, every entry of \<^verbatim>\<open>cli_data\<close> that is a device record holds the same two
  references, those of the one common-attribute map and the one VLAN list allocated
  before the first row; so any two device records are the same pair of references, each
  resolves to the final content of the two buffers, and the VLAN list it sees has at
  least one record per data row of the whole file.
\<close>

theorem devices_share_buffers:
  assumes "st = get_bulkedit_data csv_rows"
      and "(m1, e1) \<in> set (cli_data st)" and "e1 \<noteq> Empty"
      and "(m2, e2) \<in> set (cli_data st)" and "e2 \<noteq> Empty"
  shows "e1 = Entry (common_ref st) (vlans_ref st) \<and> e2 = e1
       \<and> common_ref st = common_ref init_ingest \<and> vlans_ref st = vlans_ref init_ingest
       \<and> resolve (heap st) e1 = Some (read_common (heap st) (common_ref st), read_vlans (heap st) (vlans_ref st))
       \<and> length (tl csv_rows) \<le> length (read_vlans (heap st) (vlans_ref st))"
proof -
  from shared_inv_get_bulkedit_data [of csv_rows] assms(1)
  have inv: "shared_inv st" and len: "length (tl csv_rows) \<le> length (read_vlans (heap st) 1)"
    by simp_all
  from inv assms(2,3) have e1: "e1 = Entry (common_ref st) (vlans_ref st)"
    by (auto simp: shared_inv_def)
  from inv assms(4,5) have e2: "e2 = Entry (common_ref st) (vlans_ref st)"
    by (auto simp: shared_inv_def)
  from inv have r: "common_ref st = common_ref init_ingest" "vlans_ref st = vlans_ref init_ingest"
    by (simp_all add: shared_inv_def)
  show ?thesis
    using e1 e2 r len by (simp add: resolve_def init_refs)
qed

theorem devices_share_buffers_witness:
  "cli_data (get_bulkedit_data two_devices) = [(''aa:aa'', Entry 0 1), (''bb:bb'', Entry 0 1)]
   \<and> data_of (get_bulkedit_data two_devices)
      = [(''aa:aa'', Some ([(''group'', ''G2''), (''hostname'', ''gw2'')],
                          [[(''vlan_id'', Str ''10'')], [(''vlan_id'', Str ''20'')]])),
         (''bb:bb'', Some ([(''group'', ''G2''), (''hostname'', ''gw2'')],
                          [[(''vlan_id'', Str ''10'')], [(''vlan_id'', Str ''20'')]]))]
   \<and> Entry 0 1 = Entry (common_ref (get_bulkedit_data two_devices)) (vlans_ref (get_bulkedit_data two_devices))"
proof -
  have c: "cli_data (get_bulkedit_data two_devices) = [(''aa:aa'', Entry 0 1), (''bb:bb'', Entry 0 1)]"
    by code_simp
  have d: "data_of (get_bulkedit_data two_devices)
      = [(''aa:aa'', Some ([(''group'', ''G2''), (''hostname'', ''gw2'')],
                          [[(''vlan_id'', Str ''10'')], [(''vlan_id'', Str ''20'')]])),
         (''bb:bb'', Some ([(''group'', ''G2''), (''hostname'', ''gw2'')],
                          [[(''vlan_id'', Str ''10'')], [(''vlan_id'', Str ''20'')]]))]"
    by code_simp
  have m1: "(''aa:aa'', Entry 0 1) \<in> set (cli_data (get_bulkedit_data two_devices))"
   and m2: "(''bb:bb'', Entry 0 1) \<in> set (cli_data (get_bulkedit_data two_devices))"
    by (simp_all add: c)
  from devices_share_buffers [OF refl m1 _ m2] c d show ?thesis by simp
qed

section \<open>The \<^verbatim>\<open>vlan <id>\<close> lines of a device\<close>

lemma then_do_Done_iff: "then_do r f = Done s' \<longleftrightarrow> (\<exists>s1. r = Done s1 \<and> f s1 = Done s')"
  by (cases r) auto

lemma iter_lines_Done:
  "iter_lines v k pre s =
     Done (emit (map (\<lambda>g. pre @ g) (case dict_get v k of None \<Rightarrow> [] | Some x \<Rightarrow> elems x)) s)"
  by (auto simp: iter_lines_def is_set_def index_def elems_not_truthy emit_Nil split: option.splits)

lemma startswith_Nil: "startswith x []"
  by (simp add: startswith_def)

lemma startswith_Cons: "startswith (c # x) (p # ps) \<longleftrightarrow> c = p \<and> startswith x ps"
  by (auto simp: startswith_def)

lemma startswith_Nil_Cons: "\<not> startswith [] (p # ps)"
  by (simp add: startswith_def)

lemmas startswith_simps = startswith_Nil startswith_Cons startswith_Nil_Cons

lemma is_vlan_line_Cons [simp]: "is_vlan_line (c # x) \<longleftrightarrow> c = CHR ''v'' \<and> startswith x ''lan ''"
  by (simp add: is_vlan_line_def startswith_simps)

lemma is_vlan_line_Nil [simp]: "\<not> is_vlan_line []"
  by (simp add: is_vlan_line_def startswith_simps)

declare startswith_simps [simp]

lemma cmds_emit [simp]: "cmds (emit xs s) = cmds s @ xs"
  by (simp add: emit_def)

lemma cmds_say [simp]: "cmds (say x s) = cmds s"
  by (simp add: say_def)

lemma cmds_called [simp]: "cmds (called e s) = cmds s"
  by (simp add: called_def)

lemma adds_Done: "filter is_vlan_line (cmds s1) = filter is_vlan_line (cmds s) @ X \<Longrightarrow> adds (Done s1) s X"
  by (simp add: adds_def)

lemma adds_Raised: "adds (Raised e s1) s X"
  by (simp add: adds_def)

lemma adds_then_do:
  assumes "adds r s X" and "\<And>s1. r = Done s1 \<Longrightarrow> adds (f s1) s1 Y"
  shows "adds (then_do r f) s (X @ Y)"
  using assms by (cases r) (auto simp: adds_def)

lemma adds_then_do_Nil:
  assumes "adds r s []" and "\<And>s1. r = Done s1 \<Longrightarrow> adds (f s1) s1 Y"
  shows "adds (then_do r f) s Y"
  using adds_then_do [OF assms] by simp

lemma adds_index:
  assumes "\<And>x. dict_get d k = Some x \<Longrightarrow> adds (f x) s X"
  shows "adds (index d k s1 f) s X"
  using assms by (auto simp: index_def adds_Raised split: option.splits)

lemma adds_opt_line:
  assumes "\<And>x. \<not> is_vlan_line (pre @ x)"
  shows "adds (opt_line v k pre s) s []"
  using assms by (auto simp: opt_line_Done adds_def split: option.splits)

lemma adds_iter_lines:
  assumes "\<And>x. \<not> is_vlan_line (pre @ x)"
  shows "adds (iter_lines v k pre s) s []"
  using assms by (auto simp: iter_lines_Done adds_def filter_empty_conv split: option.splits)

lemma adds_l3_block: "adds (l3_block v s) s []"
  unfolding l3_block_def
  by (auto intro!: adds_then_do_Nil adds_index adds_opt_line adds_Done)

lemma adds_pppoe_block: "adds (pppoe_block v s) s []"
  by (simp add: pppoe_block_def adds_def)

lemma iface_line_not_vlan: "iface_line p = Inr line \<Longrightarrow> \<not> is_vlan_line line"
  by (cases p) (auto split: if_splits)

lemma adds_access_block: "adds (access_block v s) s []"
  unfolding access_block_def
  by (auto intro!: adds_index adds_Done adds_Raised simp: iface_line_not_vlan split: sum.splits)

lemma adds_network_line: "adds (network_line v s) s []"
  unfolding network_line_def
  by (auto intro!: adds_index adds_Done)

lemma adds_pool_block: "adds (pool_block v s) s []"
  unfolding pool_block_def
  by (auto intro!: adds_then_do_Nil adds_index adds_opt_line adds_iter_lines adds_network_line adds_Done)

lemma adds_excludes_block:
  assumes "\<forall>l \<in> set (exclude_lines v). \<not> is_vlan_line l"
  shows "adds (excludes_block v s) s []"
  using assms by (simp add: excludes_block_Done adds_def filter_empty_conv)

lemma adds_vrrp_block:
  assumes "dict_get v ''vlan_id'' = Some i"
  shows "adds (vrrp_block v s) s (if is_set v ''vrrp_id'' \<and> is_set v ''vrrp_ip'' then [''vlan '' @ fmt i] else [])"
  unfolding vrrp_block_def using assms
  by (auto simp: index_def opt_line_Done adds_def split: option.splits)

lemma adds_unsupported_block: "adds (unsupported_block v s) s []"
  by (simp add: unsupported_block_def adds_def Let_def)

lemma adds_build_vlan:
  assumes "excl_ok v"
  shows "adds (build_vlan v s) s (vlan_lines v)"
proof (cases "dict_get v ''vlan_id''")
  case None
  then show ?thesis by (simp add: build_vlan_def index_def adds_Raised)
next
  case (Some i)
  let ?Y = "if is_set v ''vrrp_id'' \<and> is_set v ''vrrp_ip'' then [''vlan '' @ fmt i] else []"
  have r6: "adds (then_do (vrrp_block v s1) (\<lambda>s. unsupported_block v s)) s1 ?Y" for s1
  proof -
    have "adds (then_do (vrrp_block v s1) (unsupported_block v)) s1 (?Y @ [])"
      by (rule adds_then_do) (rule adds_vrrp_block [OF Some], rule adds_unsupported_block)
    then show ?thesis by simp
  qed
  have r5: "adds (then_do (excludes_block v s1) (\<lambda>s.
     then_do (vrrp_block v s) (\<lambda>s. unsupported_block v s))) s1 ?Y" for s1
    using assms by (intro adds_then_do_Nil adds_excludes_block r6) (simp add: excl_ok_def)
  have r4: "adds (then_do (pool_block v s1) (\<lambda>s.
     then_do (excludes_block v s) (\<lambda>s.
     then_do (vrrp_block v s) (\<lambda>s. unsupported_block v s)))) s1 ?Y" for s1
    by (rule adds_then_do_Nil [OF adds_pool_block r5])
  have r3: "adds (then_do (access_block v s1) (\<lambda>s.
     then_do (pool_block v s) (\<lambda>s.
     then_do (excludes_block v s) (\<lambda>s.
     then_do (vrrp_block v s) (\<lambda>s. unsupported_block v s))))) s1 ?Y" for s1
    by (rule adds_then_do_Nil [OF adds_access_block r4])
  have r2: "adds (then_do (pppoe_block v s1) (\<lambda>s.
     then_do (access_block v s) (\<lambda>s.
     then_do (pool_block v s) (\<lambda>s.
     then_do (excludes_block v s) (\<lambda>s.
     then_do (vrrp_block v s) (\<lambda>s. unsupported_block v s)))))) s1 ?Y" for s1
    by (rule adds_then_do_Nil [OF adds_pppoe_block r3])
  have rest: "adds (then_do (l3_block v s1) (\<lambda>s.
     then_do (pppoe_block v s) (\<lambda>s.
     then_do (access_block v s) (\<lambda>s.
     then_do (pool_block v s) (\<lambda>s.
     then_do (excludes_block v s) (\<lambda>s.
     then_do (vrrp_block v s) (\<lambda>s.
     unsupported_block v s))))))) s1 ?Y" for s1
    by (rule adds_then_do_Nil [OF adds_l3_block r2])
  have "adds (then_do (Done (emit [''vlan '' @ fmt i, ''!''] s)) (\<lambda>s.
     then_do (l3_block v s) (\<lambda>s.
     then_do (pppoe_block v s) (\<lambda>s.
     then_do (access_block v s) (\<lambda>s.
     then_do (pool_block v s) (\<lambda>s.
     then_do (excludes_block v s) (\<lambda>s.
     then_do (vrrp_block v s) (\<lambda>s.
     unsupported_block v s)))))))) s ([''vlan '' @ fmt i] @ ?Y)"
    by (rule adds_then_do [OF adds_Done rest]) simp
  then show ?thesis
    by (simp add: build_vlan_def index_def Some vlan_lines_def)
qed

lemma adds_build_vlans:
  assumes "\<forall>v \<in> set vs. excl_ok v"
  shows "adds (build_vlans vs s) s (concat (map vlan_lines vs))"
  using assms
proof (induction vs arbitrary: s)
  case Nil
  then show ?case by (simp add: adds_def)
next
  case (Cons v vs)
  have "adds (then_do (build_vlan v s) (build_vlans vs)) s (vlan_lines v @ concat (map vlan_lines vs))"
    using Cons by (intro adds_then_do adds_build_vlan) simp_all
  then show ?case by simp
qed

lemma adds_reconcile: "adds (reconcile sess common pretty dev_info s) s []"
proof (cases dev_info)
  case Nil
  then show ?thesis by (simp add: reconcile_def adds_def)
next
  case (Cons info rest)
  then show ?thesis
    by (auto simp: reconcile_def Let_def intro!: adds_index adds_Done)
qed

lemma adds_hostname_block: "adds (hostname_block common s) s []"
  by (simp add: hostname_block_def adds_def split: option.splits)

lemma adds_build_dev:
  assumes "\<forall>v \<in> set vlans. excl_ok v"
  shows "adds (build_dev sess dev (Some (common, vlans)) s) s (concat (map vlan_lines vlans))"
proof -
  have "adds (then_do (reconcile sess common pretty dev_info s2) (\<lambda>s3.
               then_do (hostname_block common (say msg s3)) (build_vlans vlans))) s
          (concat (map vlan_lines vlans))"
    if "cmds s2 = cmds s" for pretty dev_info s2 msg
  proof -
    have "adds (then_do (hostname_block common (say msg s3)) (build_vlans vlans)) s3
            (concat (map vlan_lines vlans))" for s3
      using adds_then_do_Nil [OF adds_hostname_block [of common "say msg s3"] adds_build_vlans [OF assms]]
      by (simp add: adds_def)
    from adds_then_do_Nil [OF adds_reconcile this]
    show ?thesis using that by (simp add: adds_def)
  qed
  then show ?thesis
    unfolding build_dev_def by (auto intro!: adds_index simp: Let_def)
qed

lemma excl_ok_Nil: "excl_ok []"
  by (simp add: excl_ok_def exclude_lines_def dict_get_def)

lemma excl_ok_vlan_id: "excl_ok [(''vlan_id'', x)]"
  by (simp add: excl_ok_def exclude_lines_def dict_get_def)

lemma excl_ok_append_item_other:
  "k \<noteq> ''dhcp_excludes'' \<Longrightarrow> excl_ok (append_item k x d) = excl_ok d"
  by (simp add: excl_ok_def exclude_lines_append_item_other)

lemma excl_ok_append_exclude:
  "excl_ok d \<Longrightarrow> excl_ok (append_item ''dhcp_excludes'' (exclude_line a b) d)"
  by (simp add: excl_ok_def exclude_lines_append_item exclude_line_def)

lemma excl_ok_dict_set_Str: "excl_ok d \<Longrightarrow> excl_ok (dict_set k (Str x) d)"
  by (cases "k = ''dhcp_excludes''")
     (auto simp: excl_ok_def exclude_lines_def dict_get_dict_set)

lemma excl_ok_process_col:
  assumes "excl_ok (vlan_data st)"
  shows "excl_ok (vlan_data (process_col st kv))"
  using assms
  by (simp add: process_col_def Let_def excl_ok_vlan_id excl_ok_append_item_other
        excl_ok_append_exclude excl_ok_dict_set_Str)

lemma read_vlans_process_col:
  assumes "shared_inv st"
  shows "set (read_vlans (heap (process_col st kv)) 1) \<subseteq> insert (vlan_data st) (set (read_vlans (heap st) 1))"
proof -
  from assms obtain d l where h: "length (heap st) = 2" "heap st ! 0 = DictObj d" "heap st ! 1 = ListObj l"
    and r: "common_ref st = 0" "vlans_ref st = 1"
    by (auto simp: shared_inv_def init_refs)
  note cs = heap_shape_common_store [OF h] and va = heap_shape_vlans_append [OF h]
  show ?thesis
    using cs va h by (auto simp: process_col_def Let_def read_vlans_def r)
qed

lemma excl_inv_process_col:
  assumes "shared_inv st" and "excl_inv st"
  shows "excl_inv (process_col st kv)"
  using assms excl_ok_process_col [of st kv] read_vlans_process_col [OF assms(1), of kv]
  by (auto simp: excl_inv_def)

lemma excl_inv_cols:
  assumes "shared_inv st" and "excl_inv st"
  shows "excl_inv (foldl process_col st kvs)"
  using assms
proof (induction kvs arbitrary: st)
  case Nil
  then show ?case by simp
next
  case (Cons kv kvs)
  from shared_inv_process_col [OF Cons.prems(1), of kv] excl_inv_process_col [OF Cons.prems, of kv]
  show ?case using Cons.IH [of "process_col st kv"] by simp
qed

lemma excl_inv_process_row:
  assumes "shared_inv st" and "excl_inv st"
  shows "excl_inv (process_row header st row)"
proof -
  let ?st0 = "st\<lparr>vlan_data := []\<rparr>"
  let ?st1 = "foldl process_col ?st0 (zip header row)"
  have inv0: "shared_inv ?st0" by (rule shared_inv_reset [OF assms(1)])
  have "excl_inv ?st0" using assms(2) by (simp add: excl_inv_def excl_ok_Nil)
  from excl_inv_cols [OF inv0 this] have e1: "excl_inv ?st1" .
  from shared_inv_cols [OF inv0, of "zip header row"] have inv1: "shared_inv ?st1" by simp
  from inv1 obtain d l where h: "length (heap ?st1) = 2" "heap ?st1 ! 0 = DictObj d" "heap ?st1 ! 1 = ListObj l"
    and r: "common_ref ?st1 = 0" "vlans_ref ?st1 = 1"
    by (auto simp: shared_inv_def init_refs)
  note va = heap_shape_vlans_append [OF h]
  show ?thesis
    using e1 va h by (auto simp: process_row_def Let_def r excl_inv_def read_vlans_def)
qed

lemma excl_inv_rows:
  assumes "shared_inv st" and "excl_inv st"
  shows "excl_inv (foldl (process_row header) st rows)"
  using assms
proof (induction rows arbitrary: st)
  case Nil
  then show ?case by simp
next
  case (Cons row rows)
  from shared_inv_process_row [OF Cons.prems(1), of header row] excl_inv_process_row [OF Cons.prems, of header row]
  show ?case using Cons.IH [of "process_row header st row"] by simp
qed

lemma excl_inv_init: "excl_inv init_ingest"
  by (simp add: excl_inv_def init_ingest_def alloc_def read_vlans_def excl_ok_Nil)

lemma excl_inv_get_bulkedit_data: "excl_inv (get_bulkedit_data csv_rows)"
  by (cases csv_rows)
     (simp_all add: get_bulkedit_data_def excl_inv_init excl_inv_rows [OF shared_inv_init excl_inv_init])

lemma data_of_vlans:
  assumes "(m, Some (common, vlans)) \<in> set (data_of (get_bulkedit_data csv_rows))"
  shows "vlans = read_vlans (heap (get_bulkedit_data csv_rows)) 1"
proof -
  let ?st = "get_bulkedit_data csv_rows"
  from assms obtain e where e: "(m, e) \<in> set (cli_data ?st)" "resolve (heap ?st) e = Some (common, vlans)"
    by (auto simp: data_of_def)
  then have "e \<noteq> Empty" by (auto simp: resolve_def)
  with e(1) shared_inv_get_bulkedit_data [of csv_rows] have "e = Entry 0 1"
    by (auto simp: shared_inv_def init_refs)
  with e(2) show ?thesis by (simp add: resolve_def)
qed

lemma build_vlans_have_id:
  "build_vlans vs s = Done s' \<Longrightarrow> \<forall>v \<in> set vs. dict_get v ''vlan_id'' \<noteq> None"
proof (induction vs arbitrary: s)
  case Nil
  then show ?case by simp
next
  case (Cons v vs)
  from Cons.prems obtain s1 where s1: "build_vlan v s = Done s1" "build_vlans vs s1 = Done s'"
    by (auto simp: then_do_Done_iff)
  from s1(1) have "dict_get v ''vlan_id'' \<noteq> None"
    by (cases "dict_get v ''vlan_id''") (simp_all add: build_vlan_def index_def)
  with Cons.IH [OF s1(2)] show ?case by simp
qed

lemma length_vlan_lines:
  "\<forall>v \<in> set vs. dict_get v ''vlan_id'' \<noteq> None \<Longrightarrow>
   length (concat (map vlan_lines vs))
     = length vs + length (filter (\<lambda>v. is_set v ''vrrp_id'' \<and> is_set v ''vrrp_ip'') vs)"
  by (induction vs) (auto simp: vlan_lines_def)

section \<open>The block of a VLAN, step by step\<close>

lemma after_empty [simp]: "after s empty_state = s" "after empty_state s = s"
  by (simp_all add: after_def empty_state_def)

lemma after_assoc: "after (after s t) u = after s (after t u)"
  by (simp add: after_def)

lemma shift_shift: "shift s (shift t r) = shift (after s t) r"
  by (cases r) (simp_all add: after_assoc)

lemma shift_empty [simp]: "shift empty_state r = r"
  by (cases r) simp_all

lemma emit_after: "emit xs s = after s (emit xs empty_state)"
  by (simp add: emit_def after_def empty_state_def)

lemma say_after: "say x s = after s (say x empty_state)"
  by (simp add: say_def after_def empty_state_def)

lemma uniformI: "(\<And>s. f s = shift s (f empty_state)) \<Longrightarrow> uniform f"
  unfolding uniform_def by blast

lemma uniformD: "uniform f \<Longrightarrow> f s = shift s (f empty_state)"
  unfolding uniform_def by blast

lemma uniform_Done: "uniform Done"
  by (rule uniformI) simp

lemma uniform_emit: "uniform (\<lambda>s. Done (emit xs s))"
  by (rule uniformI) (simp add: emit_after [symmetric])

lemma uniform_say: "uniform (\<lambda>s. Done (say x s))"
  by (rule uniformI) (simp add: say_after [symmetric])

lemma uniform_then_do:
  assumes "uniform f" and "uniform g"
  shows "uniform (\<lambda>s. then_do (f s) g)"
proof (rule uniformI)
  fix s
  show "then_do (f s) g = shift s (then_do (f empty_state) g)"
  proof (cases "f empty_state")
    case (Done t)
    then have "f s = Done (after s t)" using uniformD [OF assms(1), of s] by simp
    then show ?thesis
      using Done uniformD [OF assms(2), of "after s t"] uniformD [OF assms(2), of t]
      by (simp add: shift_shift)
  next
    case (Raised e t)
    then have "f s = Raised e (after s t)" using uniformD [OF assms(1), of s] by simp
    then show ?thesis using Raised by simp
  qed
qed

lemma uniform_index:
  assumes "\<And>x. dict_get d k = Some x \<Longrightarrow> uniform (f x)"
  shows "uniform (\<lambda>s. index d k s (\<lambda>x. f x s))"
proof (cases "dict_get d k")
  case None
  then show ?thesis by (intro uniformI) (simp add: index_def)
next
  case (Some x)
  show ?thesis
    by (rule uniformI) (simp add: index_def Some uniformD [OF assms [OF Some], symmetric])
qed

lemma uniform_if: "uniform f \<Longrightarrow> uniform g \<Longrightarrow> uniform (\<lambda>s. if c then f s else g s)"
  by (cases c) simp_all

lemma uniform_opt_line: "uniform (opt_line v k pre)"
  by (rule uniformI) (simp add: opt_line_Done emit_after [symmetric])

lemma uniform_iter_lines: "uniform (iter_lines v k pre)"
  by (rule uniformI) (simp add: iter_lines_Done emit_after [symmetric])

lemma l3_block_eq: "l3_block v = (\<lambda>s.
     (if is_set v ''vlan_ip'' then
        then_do (if \<not> is_set v ''vlan_subnet''
                 then index v ''vlan_id'' s (\<lambda>i.
                        Done (say (''Validation Error No subnet mask for VLAN '' @ fmt i @ '' '') s))
                 else Done s) (\<lambda>s.
        then_do (index v ''vlan_id'' s (\<lambda>i. index v ''vlan_ip'' s (\<lambda>ip. index v ''vlan_subnet'' s (\<lambda>sn.
                   Done (emit [''interface vlan '' @ fmt i,
                               ''ip address '' @ fmt ip @ '' '' @ fmt sn] s))))) (\<lambda>s.
        then_do (opt_line v ''vlan_interface_description'' ''description '' s) (\<lambda>s.
        then_do (opt_line v ''vlan_helper_addr'' ''ip helper-address '' s) (\<lambda>s.
        then_do (opt_line v ''vlan_interface_operstate'' ''operstate '' s) (\<lambda>s.
        Done (emit [''!''] s))))))
      else Done s))"
  by (rule ext) (simp add: l3_block_def)

lemma uniform_l3_block: "uniform (l3_block v)"
  unfolding l3_block_eq
  by (intro uniform_if uniform_then_do uniform_index uniform_opt_line uniform_emit uniform_say uniform_Done)

lemma uniform_Raised: "uniform (Raised e)"
  by (rule uniformI) simp

lemma uniform_case_sum:
  assumes "\<And>e. r = Inl e \<Longrightarrow> uniform (f e)" and "\<And>l. r = Inr l \<Longrightarrow> uniform (g l)"
  shows "uniform (\<lambda>s. case r of Inl e \<Rightarrow> f e s | Inr l \<Rightarrow> g l s)"
  using assms by (cases r) simp_all

lemma uniform_pppoe_block: "uniform (pppoe_block v)"
  by (rule uniformI) (simp add: pppoe_block_def say_def after_def empty_state_def)

lemma access_block_eq: "access_block v = (\<lambda>s.
     (if is_set v ''access_port'' then
        index v ''access_port'' s (\<lambda>p.
          case iface_line p of
            Inl e \<Rightarrow> Raised e s
          | Inr line \<Rightarrow> index v ''vlan_id'' s (\<lambda>i.
              Done (emit [line, ''switchport access vlan '' @ fmt i, ''!''] s)))
      else Done s))"
  by (rule ext) (simp add: access_block_def)

lemma uniform_access_block: "uniform (access_block v)"
  unfolding access_block_eq
  by (intro uniform_if uniform_index uniform_case_sum uniform_Raised uniform_emit uniform_Done)

lemma network_line_eq: "network_line v = (\<lambda>s.
     (if is_set v ''dhcp_network'' then
        if is_set v ''dhcp_mask'' then
          index v ''dhcp_network'' s (\<lambda>n. index v ''dhcp_mask'' s (\<lambda>m.
            Done (emit [''network '' @ fmt n @ '' '' @ fmt m] s)))
        else if is_set v ''dhcp_network_prefix'' then
          index v ''dhcp_network'' s (\<lambda>n. index v ''dhcp_network_prefix'' s (\<lambda>m.
            Done (emit [''network '' @ fmt n @ '' /'' @ fmt m] s)))
        else Done s
      else Done s))"
  by (rule ext) (simp add: network_line_def)

lemma uniform_network_line: "uniform (network_line v)"
  unfolding network_line_eq
  by (intro uniform_if uniform_index uniform_emit uniform_Done)

lemma pool_block_eq: "pool_block v = (\<lambda>s.
     (if is_set v ''dhcp_pool_name'' then
        then_do (index v ''dhcp_pool_name'' s (\<lambda>n. Done (emit [''ip dhcp pool '' @ fmt n] s))) (\<lambda>s.
        then_do (iter_lines v ''dhcp_def_gws'' ''default-router '' s) (\<lambda>s.
        then_do (if is_set v ''dns_servers''
                 then index v ''dns_servers'' s (\<lambda>d.
                        Done (emit [''dns-server '' @ join_with '' '' (elems d)] s))
                 else Done s) (\<lambda>s.
        then_do (opt_line v ''domain_name'' ''domain-name '' s) (\<lambda>s.
        then_do (network_line v s) (\<lambda>s.
        Done (emit [''!''] s))))))
      else Done s))"
  by (rule ext) (simp add: pool_block_def)

lemma uniform_pool_block: "uniform (pool_block v)"
  unfolding pool_block_eq
  by (intro uniform_if uniform_then_do uniform_index uniform_opt_line uniform_iter_lines
        uniform_network_line uniform_emit uniform_Done)

lemma uniform_excludes_block: "uniform (excludes_block v)"
proof -
  have "excludes_block v = iter_lines v ''dhcp_excludes'' []"
    by (rule ext) (simp add: excludes_block_def)
  then show ?thesis by (simp add: uniform_iter_lines)
qed

lemma vrrp_block_eq: "vrrp_block v = (\<lambda>s.
     (if is_set v ''vrrp_id'' then
        if is_set v ''vrrp_ip'' then
          then_do (index v ''vrrp_id'' s (\<lambda>r. index v ''vrrp_ip'' s (\<lambda>ip. index v ''vlan_id'' s (\<lambda>i.
                     Done (emit [''vrrp '' @ fmt r, ''ip address '' @ fmt ip, ''vlan '' @ fmt i] s))))) (\<lambda>s.
          then_do (opt_line v ''vrrp_priority'' ''priority '' s) (\<lambda>s.
          Done (emit [''no shutdown'', ''!''] s)))
        else
          index v ''vrrp_id'' s (\<lambda>r. index v ''vlan_id'' s (\<lambda>i.
            Done (say (''Validation Error VRRP ID '' @ fmt r @ '' VLAN '' @ fmt i @
                       '' No VRRP IP provided... Skipped'') s)))
      else Done s))"
  by (rule ext) (simp add: vrrp_block_def)

lemma uniform_vrrp_block: "uniform (vrrp_block v)"
  unfolding vrrp_block_eq
  by (intro uniform_if uniform_then_do uniform_index uniform_opt_line uniform_emit uniform_say uniform_Done)

lemma uniform_unsupported_block: "uniform (unsupported_block v)"
  by (rule uniformI) (simp add: unsupported_block_def Let_def say_def after_def empty_state_def)

lemma build_vlan_eq: "build_vlan v = (\<lambda>s.
     then_do (index v ''vlan_id'' s (\<lambda>i. Done (emit [''vlan '' @ fmt i, ''!''] s))) (\<lambda>s.
     then_do (l3_block v s) (\<lambda>s.
     then_do (pppoe_block v s) (\<lambda>s.
     then_do (access_block v s) (\<lambda>s.
     then_do (pool_block v s) (\<lambda>s.
     then_do (excludes_block v s) (\<lambda>s.
     then_do (vrrp_block v s) (\<lambda>s.
     unsupported_block v s))))))))"
  by (rule ext) (simp add: build_vlan_def)

lemma uniform_build_vlan: "uniform (build_vlan v)"
  unfolding build_vlan_eq
  by (intro uniform_then_do uniform_index uniform_emit uniform_l3_block uniform_pppoe_block
        uniform_access_block uniform_pool_block uniform_excludes_block uniform_vrrp_block
        uniform_unsupported_block)

lemma uniform_DoneD:
  assumes "uniform f" and "f s = Done s'"
  shows "(\<exists>t. f empty_state = Done t) \<and> cmds s' = cmds s @ added f \<and> trace s' = trace s @ printed f"
proof (cases "f empty_state")
  case (Done t)
  with uniformD [OF assms(1), of s] assms(2) have "s' = after s t" by simp
  with Done show ?thesis by (simp add: added_def printed_def state_of_def after_def)
next
  case (Raised e t)
  with uniformD [OF assms(1), of s] assms(2) show ?thesis by simp
qed

lemma added_emit: "added (\<lambda>s. Done (emit xs s)) = xs"
  by (simp add: added_def state_of_def emit_def empty_state_def)

lemma added_pppoe_block: "added (pppoe_block v) = []"
  by (simp add: added_def state_of_def pppoe_block_def say_def empty_state_def)

lemma added_unsupported_block: "added (unsupported_block v) = []"
  by (simp add: added_def state_of_def unsupported_block_def Let_def say_def empty_state_def)

lemma printed_excludes_block: "printed (excludes_block v) = []"
  by (simp add: printed_def state_of_def excludes_block_Done emit_def empty_state_def)

lemma added_excludes_block: "added (excludes_block v) = exclude_lines v"
  by (simp add: added_def state_of_def excludes_block_Done emit_def empty_state_def)

lemma trace_emit [simp]: "trace (emit xs s) = trace s"
  by (simp add: emit_def)

lemma silentI: "(\<And>s. trace (state_of (f s)) = trace s) \<Longrightarrow> silent f"
  by (simp add: silent_def)

lemma silent_printed: "silent f \<Longrightarrow> printed f = []"
  by (simp add: silent_def printed_def empty_state_def)

lemma silent_Done_emit: "silent (\<lambda>s. Done (emit xs s))"
  by (simp add: silent_def state_of_def)

lemma silent_Done: "silent Done"
  by (simp add: silent_def state_of_def)

lemma silent_Raised: "silent (Raised e)"
  by (simp add: silent_def state_of_def)

lemma silent_then_do: "silent f \<Longrightarrow> silent g \<Longrightarrow> silent (\<lambda>s. then_do (f s) g)"
  unfolding silent_def
proof (intro allI)
  fix s
  assume f: "\<forall>s. trace (state_of (f s)) = trace s" and g: "\<forall>s. trace (state_of (g s)) = trace s"
  show "trace (state_of (then_do (f s) g)) = trace s"
  proof (cases "f s")
    case (Done t)
    with f [rule_format, of s] g [rule_format, of t] show ?thesis by (simp add: state_of_def)
  next
    case (Raised e t)
    with f [rule_format, of s] show ?thesis by (simp add: state_of_def)
  qed
qed

lemma silent_index:
  assumes "\<And>x. dict_get d k = Some x \<Longrightarrow> silent (f x)"
  shows "silent (\<lambda>s. index d k s (\<lambda>x. f x s))"
proof (cases "dict_get d k")
  case None
  then show ?thesis by (simp add: silent_def index_def state_of_def)
next
  case (Some x)
  with assms [OF Some] show ?thesis by (simp add: silent_def index_def)
qed

lemma silent_if: "silent f \<Longrightarrow> silent g \<Longrightarrow> silent (\<lambda>s. if c then f s else g s)"
  by (cases c) simp_all

lemma silent_case_sum:
  assumes "\<And>e. r = Inl e \<Longrightarrow> silent (f e)" and "\<And>l. r = Inr l \<Longrightarrow> silent (g l)"
  shows "silent (\<lambda>s. case r of Inl e \<Rightarrow> f e s | Inr l \<Rightarrow> g l s)"
  using assms by (cases r) simp_all

lemma silent_opt_line: "silent (opt_line v k pre)"
  by (simp add: silent_def opt_line_Done state_of_def)

lemma silent_iter_lines: "silent (iter_lines v k pre)"
  by (simp add: silent_def iter_lines_Done state_of_def)

lemma silent_access_block: "silent (access_block v)"
  unfolding access_block_eq
  by (intro silent_if silent_index silent_case_sum silent_Raised silent_Done_emit silent_Done)

lemma silent_network_line: "silent (network_line v)"
  unfolding network_line_eq
  by (intro silent_if silent_index silent_Done_emit silent_Done)

lemma silent_pool_block: "silent (pool_block v)"
  unfolding pool_block_eq
  by (intro silent_if silent_then_do silent_index silent_opt_line silent_iter_lines
        silent_network_line silent_Done_emit silent_Done)

lemma build_vlan_DoneD:
  assumes "build_vlan v s = Done s'"
  shows "\<exists>i. dict_get v ''vlan_id'' = Some i
       \<and> cmds s' = cmds s @ [''vlan '' @ fmt i, ''!''] @ added (l3_block v) @ added (access_block v)
            @ added (pool_block v) @ exclude_lines v @ added (vrrp_block v)
       \<and> trace s' = trace s @ printed (l3_block v) @ printed (pppoe_block v) @ printed (vrrp_block v)
            @ printed (unsupported_block v)
       \<and> (\<exists>t. vrrp_block v empty_state = Done t) \<and> (\<exists>t. access_block v empty_state = Done t)
       \<and> (\<exists>t. l3_block v empty_state = Done t)"
proof -
  from assms obtain s0 s1 s2 s3 s4 s5 s6 where
    0: "index v ''vlan_id'' s (\<lambda>i. Done (emit [''vlan '' @ fmt i, ''!''] s)) = Done s0"
    and 1: "l3_block v s0 = Done s1" and 2: "pppoe_block v s1 = Done s2"
    and 3: "access_block v s2 = Done s3" and 4: "pool_block v s3 = Done s4"
    and 5: "excludes_block v s4 = Done s5" and 6: "vrrp_block v s5 = Done s6"
    and 7: "unsupported_block v s6 = Done s'"
    unfolding build_vlan_def then_do_Done_iff by blast
  from 0 obtain i where i: "dict_get v ''vlan_id'' = Some i"
    and s0: "s0 = emit [''vlan '' @ fmt i, ''!''] s"
    by (cases "dict_get v ''vlan_id''") (auto simp: index_def)
  note d1 = uniform_DoneD [OF uniform_l3_block 1]
   and d2 = uniform_DoneD [OF uniform_pppoe_block 2]
   and d3 = uniform_DoneD [OF uniform_access_block 3]
   and d4 = uniform_DoneD [OF uniform_pool_block 4]
   and d5 = uniform_DoneD [OF uniform_excludes_block 5]
   and d6 = uniform_DoneD [OF uniform_vrrp_block 6]
   and d7 = uniform_DoneD [OF uniform_unsupported_block 7]
  have c: "cmds s' = cmds s @ [''vlan '' @ fmt i, ''!''] @ added (l3_block v) @ added (access_block v)
            @ added (pool_block v) @ exclude_lines v @ added (vrrp_block v)"
    using d1 d2 d3 d4 d5 d6 d7
    by (simp add: s0 added_pppoe_block added_unsupported_block added_excludes_block)
  have t: "trace s' = trace s @ printed (l3_block v) @ printed (pppoe_block v) @ printed (vrrp_block v)
            @ printed (unsupported_block v)"
    using d1 d2 d3 d4 d5 d6 d7
    by (simp add: s0 printed_excludes_block silent_printed [OF silent_access_block]
          silent_printed [OF silent_pool_block])
  from i c t d6 d3 d1 show ?thesis by blast
qed

subsection \<open>Every record of a finished run has its block in the output\<close>

lemma grows_refl: "grows s s"
  by (simp add: grows_def)

lemma grows_trans: "grows s t \<Longrightarrow> grows t u \<Longrightarrow> grows s u"
  by (auto simp: grows_def)

lemma grows_say: "grows s (say x s)"
  by (simp add: grows_def say_def)

lemma grows_called: "grows s (called e s)"
  by (simp add: grows_def called_def)

lemma grows_emit: "grows s (emit xs s)"
  by (simp add: grows_def emit_def)

lemma build_vlan_grows: "build_vlan v s = Done s' \<Longrightarrow> grows s s'"
  using build_vlan_DoneD [of v s s'] by (auto simp: grows_def)

lemma build_vlans_grows: "build_vlans vs s = Done s' \<Longrightarrow> grows s s'"
proof (induction vs arbitrary: s)
  case Nil
  then show ?case by (simp add: grows_refl)
next
  case (Cons v vs)
  from Cons.prems obtain s1 where "build_vlan v s = Done s1" "build_vlans vs s1 = Done s'"
    by (auto simp: then_do_Done_iff)
  then show ?case using build_vlan_grows Cons.IH grows_trans by blast
qed

lemma build_vlans_reach:
  "build_vlans vs s = Done sf \<Longrightarrow> v \<in> set vs \<Longrightarrow>
     \<exists>s1 s2. grows s s1 \<and> build_vlan v s1 = Done s2 \<and> grows s2 sf"
proof (induction vs arbitrary: s)
  case Nil
  then show ?case by simp
next
  case (Cons w vs)
  from Cons.prems(1) obtain s1 where w: "build_vlan w s = Done s1" and r: "build_vlans vs s1 = Done sf"
    by (auto simp: then_do_Done_iff)
  show ?case
  proof (cases "v = w")
    case True
    with w r build_vlans_grows grows_refl show ?thesis by blast
  next
    case False
    with Cons.prems(2) have "v \<in> set vs" by simp
    from Cons.IH [OF r this] obtain a b where "grows s1 a" "build_vlan v a = Done b" "grows b sf"
      by blast
    with build_vlan_grows [OF w] grows_trans show ?thesis by blast
  qed
qed

lemma reconcile_grows: "reconcile sess common pretty dev_info s = Done s' \<Longrightarrow> grows s s'"
  by (cases dev_info)
     (auto simp: reconcile_def index_def Let_def grows_def say_def called_def
           split: option.splits if_splits)

lemma hostname_block_grows: "hostname_block common s = Done s' \<Longrightarrow> grows s s'"
  by (auto simp: hostname_block_def grows_def emit_def split: option.splits if_splits)

lemma build_dev_vlans:
  assumes "build_dev sess dev (Some (common, vlans)) s = Done sf"
  shows "\<exists>s1. grows s s1 \<and> build_vlans vlans s1 = Done sf"
proof -
  from assms obtain g where g: "dict_get common ''group'' = Some g"
    by (cases "dict_get common ''group''") (auto simp: build_dev_def index_def)
  define pretty where "pretty = (case dict_get common ''hostname'' of None \<Rightarrow> dev | Some h \<Rightarrow> h)"
  define s1 where "s1 = say (''Verifying '' @ pretty @ '' is in Group '' @ g @ ''...'') s"
  define s2 where "s2 = called (GetDevByType ''gateway'') s1"
  define dev_info where "dev_info =
     filter (\<lambda>d. lower (case dict_get d ''macaddr'' of None \<Rightarrow> [] | Some m \<Rightarrow> m) = lower dev)
       (get_dev_by_type sess (trace s1) ''gateway'')"
  have eq: "build_dev sess dev (Some (common, vlans)) s =
     then_do (reconcile sess common pretty dev_info s2) (\<lambda>s3.
       then_do (hostname_block common (say (''Building cmds for '' @ pretty) s3)) (build_vlans vlans))"
    by (simp add: build_dev_def index_def g Let_def pretty_def s1_def s2_def dev_info_def)
  from assms [unfolded eq] obtain s3 s4 where
    3: "reconcile sess common pretty dev_info s2 = Done s3"
    and 4: "hostname_block common (say (''Building cmds for '' @ pretty) s3) = Done s4"
    and 5: "build_vlans vlans s4 = Done sf"
    by (auto simp: then_do_Done_iff)
  have "grows s s2"
    unfolding s2_def s1_def by (rule grows_trans [OF grows_say grows_called])
  with reconcile_grows [OF 3] grows_say [of s3] hostname_block_grows [OF 4]
  have "grows s s4" using grows_trans by blast
  with 5 show ?thesis by blast
qed

lemma build_dev_grows:
  assumes "build_dev sess dev d s = Done sf"
  shows "grows s sf"
proof (cases d)
  case None
  with assms show ?thesis by (simp add: build_dev_def)
next
  case (Some cv)
  obtain common vlans where "cv = (common, vlans)" by (cases cv)
  with Some assms build_dev_vlans [of sess dev common vlans s sf] build_vlans_grows grows_trans
  show ?thesis by blast
qed

lemma build_devs_grows: "build_devs sess data s = Done sf \<Longrightarrow> grows s sf"
proof (induction data arbitrary: s)
  case Nil
  then show ?case by (simp add: grows_refl)
next
  case (Cons p ps)
  from Cons.prems obtain s1 where "build_dev sess (fst p) (snd p) s = Done s1" "build_devs sess ps s1 = Done sf"
    by (auto simp: then_do_Done_iff)
  then show ?case using build_dev_grows Cons.IH grows_trans by blast
qed

lemma build_devs_reach:
  "build_devs sess data s = Done sf \<Longrightarrow> (m, Some (common, vlans)) \<in> set data \<Longrightarrow> v \<in> set vlans \<Longrightarrow>
     \<exists>s1 s2. grows s s1 \<and> build_vlan v s1 = Done s2 \<and> grows s2 sf"
proof (induction data arbitrary: s)
  case Nil
  then show ?case by simp
next
  case (Cons p ps)
  from Cons.prems(1) obtain s1 where p: "build_dev sess (fst p) (snd p) s = Done s1"
    and r: "build_devs sess ps s1 = Done sf"
    by (auto simp: then_do_Done_iff)
  show ?case
  proof (cases "p = (m, Some (common, vlans))")
    case True
    with p build_dev_vlans [of sess m common vlans s s1] obtain s0 where
      "grows s s0" "build_vlans vlans s0 = Done s1" by auto
    with build_vlans_reach [OF this(2) Cons.prems(3)] build_devs_grows [OF r] grows_trans
    show ?thesis by blast
  next
    case False
    with Cons.prems(2) have "(m, Some (common, vlans)) \<in> set ps" by simp
    from Cons.IH [OF r this Cons.prems(3)] build_dev_grows [OF p] grows_trans
    show ?thesis by blast
  qed
qed

lemma build_cmds_reach:
  assumes "build_cmds sess data = Done sf" and "(m, Some (common, vlans)) \<in> set data" and "v \<in> set vlans"
  shows "\<exists>s1 s2 pre post tpre tpost. build_vlan v s1 = Done s2
           \<and> cmds s1 = pre \<and> cmds sf = cmds s2 @ post \<and> trace s1 = tpre \<and> trace sf = trace s2 @ tpost"
  using build_devs_reach [OF assms [unfolded build_cmds_def]] by (auto simp: grows_def)

lemma added_vrrp_block_skip:
  assumes "dict_get v ''vrrp_id'' = Some r" and "truthy r" and "dict_get v ''vlan_id'' = Some i"
      and "\<not> is_set v ''vrrp_ip''"
  shows "added (vrrp_block v) = []"
    and "printed (vrrp_block v) = [Print (''Validation Error VRRP ID '' @ fmt r @ '' VLAN '' @ fmt i @
                                               '' No VRRP IP provided... Skipped'')]"
  using vrrp_block_cases [OF assms(1-3), of empty_state] assms(4)
  by (auto simp: added_def printed_def state_of_def empty_state_def)

lemma added_vrrp_block_both:
  assumes "dict_get v ''vrrp_id'' = Some r" and "truthy r" and "dict_get v ''vlan_id'' = Some i"
      and "dict_get v ''vrrp_ip'' = Some ip" and "truthy ip"
  shows "added (vrrp_block v) = [''vrrp '' @ fmt r, ''ip address '' @ fmt ip, ''vlan '' @ fmt i]
                     @ (case dict_get v ''vrrp_priority'' of None \<Rightarrow> []
                        | Some p \<Rightarrow> if truthy p then [''priority '' @ fmt p] else [])
                     @ [''no shutdown'', ''!'']"
    and "printed (vrrp_block v) = []"
  using vrrp_block_cases [OF assms(1-3), of empty_state] assms(4,5)
  by (auto simp: added_def printed_def state_of_def empty_state_def)

lemma added_access_block_Str:
  assumes "dict_get v ''access_port'' = Some (Str a)" and "a \<noteq> []" and "dict_get v ''vlan_id'' = Some i"
  shows "added (access_block v) =
             [if \<not> contains ''thernet'' a \<and> \<not> startswith a ''g''
              then ''interface gigabitethernet '' @ a else ''interface '' @ a,
              ''switchport access vlan '' @ fmt i, ''!'']"
  using access_block_lines [OF assms, of empty_state]
  by (auto simp: added_def state_of_def empty_state_def)

text \<open>
  C5. The record of the file below has \<^verbatim>\<open>vrrp_id\<close> set and no \<^verbatim>\<open>vrrp_ip\<close>, and an address
  without \<^verbatim>\<open>vlan_subnet\<close> key: the emitter raises in the layer-3 step of the VLAN, before it
  reaches the VRRP step, so no VRRP validation error is reported and the run stops.
\<close>

theorem vrrp_step_not_reached:
  "data_of (get_bulkedit_data vrrp_no_subnet_rows)
     = [(''aa:bb'', Some ([(''group'', ''G1'')],
          [[(''vlan_id'', Str ''10''), (''vlan_ip'', Str ''10.0.0.1''), (''vrrp_id'', Str ''5'')]]))]
   \<and> is_set [(''vlan_id'', Str ''10''), (''vlan_ip'', Str ''10.0.0.1''), (''vrrp_id'', Str ''5'')] ''vrrp_id''
   \<and> \<not> is_set [(''vlan_id'', Str ''10''), (''vlan_ip'', Str ''10.0.0.1''), (''vrrp_id'', Str ''5'')] ''vrrp_ip''
   \<and> BuildCLI no_gateways vrrp_no_subnet_rows
     = Raised (KeyError ''vlan_subnet'')
         \<lparr>cmds = [''vlan 10'', ''!''],
          trace = [Print ''Verifying aa:bb is in Group G1...'', GetDevByType ''gateway'',
                   Print ''Building cmds for aa:bb'',
                   Print ''Validation Error No subnet mask for VLAN 10 '']\<rparr>"
  by code_simp

text \<open>
  Where the emitter runs the block of a record to its end, the VRRP step is as C5 says.
  For every VLAN record with \<^verbatim>\<open>vrrp_id\<close> set whose block the emitter runs to its end: the
  block is \<^verbatim>\<open>vlan <id>\<close>, the separator, the lines of the layer-3, access-port and pool steps
  and the exclude lines, and then, when \<^verbatim>\<open>vrrp_ip\<close> is absent or empty, no further line,
  with the validation error printed between the prints of the earlier and the later
  steps; when \<^verbatim>\<open>vrrp_ip\<close> is set, exactly \<^verbatim>\<open>vrrp <id>\<close>, \<^verbatim>\<open>ip address <ip>\<close>, \<^verbatim>\<open>vlan <id>\<close>, then
  \<^verbatim>\<open>priority <p>\<close> only if \<^verbatim>\<open>vrrp_priority\<close> is set, then \<^verbatim>\<open>no shutdown\<close> and the separator, and
  no VRRP print. In every run of \<^verbatim>\<open>build_cmds\<close> that finishes on data holding the record, the
  record's block has run to its end and the final output continues it.
\<close>

theorem vrrp_lines_of_finished_vlan:
  assumes "build_vlan v s = Done s'" and "is_set v ''vrrp_id''"
  shows "\<exists>i r. dict_get v ''vlan_id'' = Some i \<and> dict_get v ''vrrp_id'' = Some r
     \<and> (\<not> is_set v ''vrrp_ip'' \<longrightarrow>
           cmds s' = cmds s @ [''vlan '' @ fmt i, ''!''] @ added (l3_block v) @ added (access_block v)
                       @ added (pool_block v) @ exclude_lines v
         \<and> trace s' = trace s @ printed (l3_block v) @ printed (pppoe_block v)
                       @ [Print (''Validation Error VRRP ID '' @ fmt r @ '' VLAN '' @ fmt i @
                                 '' No VRRP IP provided... Skipped'')]
                       @ printed (unsupported_block v))
     \<and> (\<forall>ip. dict_get v ''vrrp_ip'' = Some ip \<and> truthy ip \<longrightarrow>
           cmds s' = cmds s @ [''vlan '' @ fmt i, ''!''] @ added (l3_block v) @ added (access_block v)
                       @ added (pool_block v) @ exclude_lines v
                       @ [''vrrp '' @ fmt r, ''ip address '' @ fmt ip, ''vlan '' @ fmt i]
                       @ (case dict_get v ''vrrp_priority'' of None \<Rightarrow> []
                          | Some p \<Rightarrow> if truthy p then [''priority '' @ fmt p] else [])
                       @ [''no shutdown'', ''!'']
         \<and> trace s' = trace s @ printed (l3_block v) @ printed (pppoe_block v)
                       @ printed (unsupported_block v))
     \<and> (\<forall>sess data sf m common vlans.
           build_cmds sess data = Done sf \<and> (m, Some (common, vlans)) \<in> set data \<and> v \<in> set vlans \<longrightarrow>
           (\<exists>s1 s2 post tpost. build_vlan v s1 = Done s2
               \<and> cmds sf = cmds s2 @ post \<and> trace sf = trace s2 @ tpost))"
proof -
  from build_vlan_DoneD [OF assms(1)] obtain i where
    i: "dict_get v ''vlan_id'' = Some i"
    and c: "cmds s' = cmds s @ [''vlan '' @ fmt i, ''!''] @ added (l3_block v) @ added (access_block v)
            @ added (pool_block v) @ exclude_lines v @ added (vrrp_block v)"
    and t: "trace s' = trace s @ printed (l3_block v) @ printed (pppoe_block v) @ printed (vrrp_block v)
            @ printed (unsupported_block v)"
    by blast
  from is_set_D [OF assms(2)] obtain r where r: "dict_get v ''vrrp_id'' = Some r" "truthy r"
    by blast
  have A: "\<not> is_set v ''vrrp_ip'' \<longrightarrow>
           cmds s' = cmds s @ [''vlan '' @ fmt i, ''!''] @ added (l3_block v) @ added (access_block v)
                       @ added (pool_block v) @ exclude_lines v
         \<and> trace s' = trace s @ printed (l3_block v) @ printed (pppoe_block v)
                       @ [Print (''Validation Error VRRP ID '' @ fmt r @ '' VLAN '' @ fmt i @
                                 '' No VRRP IP provided... Skipped'')]
                       @ printed (unsupported_block v)"
    using c t added_vrrp_block_skip [OF r i] by simp
  have B: "\<forall>ip. dict_get v ''vrrp_ip'' = Some ip \<and> truthy ip \<longrightarrow>
           cmds s' = cmds s @ [''vlan '' @ fmt i, ''!''] @ added (l3_block v) @ added (access_block v)
                       @ added (pool_block v) @ exclude_lines v
                       @ [''vrrp '' @ fmt r, ''ip address '' @ fmt ip, ''vlan '' @ fmt i]
                       @ (case dict_get v ''vrrp_priority'' of None \<Rightarrow> []
                          | Some p \<Rightarrow> if truthy p then [''priority '' @ fmt p] else [])
                       @ [''no shutdown'', ''!'']
         \<and> trace s' = trace s @ printed (l3_block v) @ printed (pppoe_block v)
                       @ printed (unsupported_block v)"
    using c t added_vrrp_block_both [OF r i] by simp
  have C: "\<forall>sess data sf m common vlans.
           build_cmds sess data = Done sf \<and> (m, Some (common, vlans)) \<in> set data \<and> v \<in> set vlans \<longrightarrow>
           (\<exists>s1 s2 post tpost. build_vlan v s1 = Done s2
               \<and> cmds sf = cmds s2 @ post \<and> trace sf = trace s2 @ tpost)"
    using build_cmds_reach by blast
  from i r(1) A B C show ?thesis by blast
qed

theorem vrrp_lines_of_finished_vlan_witness:
  "build_vlan [(''vlan_id'', Str ''10''), (''vrrp_id'', Str ''5'')] \<lparr>cmds = [], trace = []\<rparr>
     = Done \<lparr>cmds = [''vlan 10'', ''!''],
             trace = [Print ''Validation Error VRRP ID 5 VLAN 10 No VRRP IP provided... Skipped'']\<rparr>
   \<and> is_set [(''vlan_id'', Str ''10''), (''vrrp_id'', Str ''5'')] ''vrrp_id''
   \<and> \<not> is_set [(''vlan_id'', Str ''10''), (''vrrp_id'', Str ''5'')] ''vrrp_ip''
   \<and> [''vlan 10'', ''!''] = [''vlan 10'', ''!'']
         @ added (l3_block [(''vlan_id'', Str ''10''), (''vrrp_id'', Str ''5'')])
         @ added (access_block [(''vlan_id'', Str ''10''), (''vrrp_id'', Str ''5'')])
         @ added (pool_block [(''vlan_id'', Str ''10''), (''vrrp_id'', Str ''5'')])
         @ exclude_lines [(''vlan_id'', Str ''10''), (''vrrp_id'', Str ''5'')]
   \<and> build_vlan [(''vlan_id'', Str ''10''), (''vrrp_id'', Str ''5''), (''vrrp_ip'', Str ''10.0.0.254''),
                 (''vrrp_priority'', Str ''110'')] \<lparr>cmds = [], trace = []\<rparr>
     = Done \<lparr>cmds = [''vlan 10'', ''!'', ''vrrp 5'', ''ip address 10.0.0.254'', ''vlan 10'',
                     ''priority 110'', ''no shutdown'', ''!''], trace = []\<rparr>
   \<and> (\<exists>s1 s2 post tpost.
         build_vlan [(''vlan_id'', Str ''10''), (''vrrp_id'', Str ''5'')] s1 = Done s2
       \<and> [''hostname gw1'', ''!'', ''vlan 10'', ''!''] = cmds s2 @ post
       \<and> [Print ''Verifying gw1 is in Group G1...'', GetDevByType ''gateway'',
           Print ''Building cmds for gw1'',
           Print ''Validation Error VRRP ID 5 VLAN 10 No VRRP IP provided... Skipped'']
          = trace s2 @ tpost)"
proof -
  let ?v = "[(''vlan_id'', Str ''10''), (''vrrp_id'', Str ''5'')]"
  let ?w = "[(''vlan_id'', Str ''10''), (''vrrp_id'', Str ''5''), (''vrrp_ip'', Str ''10.0.0.254''),
             (''vrrp_priority'', Str ''110'')]"
  let ?data = "[(''aa:bb'', Some ([(''group'', ''G1''), (''hostname'', ''gw1'')], [?v]))]"
  have b: "build_vlan ?v \<lparr>cmds = [], trace = []\<rparr>
     = Done \<lparr>cmds = [''vlan 10'', ''!''],
             trace = [Print ''Validation Error VRRP ID 5 VLAN 10 No VRRP IP provided... Skipped'']\<rparr>"
    by code_simp
  have h: "is_set ?v ''vrrp_id''" and n: "\<not> is_set ?v ''vrrp_ip''"
    by (simp_all add: is_set_def dict_get_def)
  have bw: "build_vlan ?w \<lparr>cmds = [], trace = []\<rparr>
     = Done \<lparr>cmds = [''vlan 10'', ''!'', ''vrrp 5'', ''ip address 10.0.0.254'', ''vlan 10'',
                     ''priority 110'', ''no shutdown'', ''!''], trace = []\<rparr>"
    by code_simp
  have run: "build_cmds no_gateways ?data
     = Done \<lparr>cmds = [''hostname gw1'', ''!'', ''vlan 10'', ''!''],
             trace = [Print ''Verifying gw1 is in Group G1...'', GetDevByType ''gateway'',
                      Print ''Building cmds for gw1'',
                      Print ''Validation Error VRRP ID 5 VLAN 10 No VRRP IP provided... Skipped'']\<rparr>"
    by code_simp
  from vrrp_lines_of_finished_vlan [OF b h] obtain i r where
    i: "dict_get ?v ''vlan_id'' = Some i"
    and A: "\<not> is_set ?v ''vrrp_ip'' \<longrightarrow>
           cmds \<lparr>cmds = [''vlan 10'', ''!''],
             trace = [Print ''Validation Error VRRP ID 5 VLAN 10 No VRRP IP provided... Skipped'']\<rparr>
             = cmds \<lparr>cmds = [], trace = []\<rparr> @ [''vlan '' @ fmt i, ''!''] @ added (l3_block ?v)
                 @ added (access_block ?v) @ added (pool_block ?v) @ exclude_lines ?v
         \<and> trace \<lparr>cmds = [''vlan 10'', ''!''],
             trace = [Print ''Validation Error VRRP ID 5 VLAN 10 No VRRP IP provided... Skipped'']\<rparr>
             = trace \<lparr>cmds = [], trace = []\<rparr> @ printed (l3_block ?v) @ printed (pppoe_block ?v)
                       @ [Print (''Validation Error VRRP ID '' @ fmt r @ '' VLAN '' @ fmt i @
                                 '' No VRRP IP provided... Skipped'')]
                       @ printed (unsupported_block ?v)"
    and C: "\<forall>sess data sf m common vlans.
           build_cmds sess data = Done sf \<and> (m, Some (common, vlans)) \<in> set data \<and> ?v \<in> set vlans \<longrightarrow>
           (\<exists>s1 s2 post tpost. build_vlan ?v s1 = Done s2
               \<and> cmds sf = cmds s2 @ post \<and> trace sf = trace s2 @ tpost)"
    by blast
  from i have i': "i = Str ''10''" by (simp add: dict_get_def)
  from A n have 1: "[''vlan 10'', ''!''] = [''vlan 10'', ''!''] @ added (l3_block ?v)
         @ added (access_block ?v) @ added (pool_block ?v) @ exclude_lines ?v"
    by (simp add: i')
  from C [rule_format, of no_gateways ?data _ "''aa:bb''" "[(''group'', ''G1''), (''hostname'', ''gw1'')]" "[?v]"] run
  have 2: "\<exists>s1 s2 post tpost.
         build_vlan ?v s1 = Done s2
       \<and> [''hostname gw1'', ''!'', ''vlan 10'', ''!''] = cmds s2 @ post
       \<and> [Print ''Verifying gw1 is in Group G1...'', GetDevByType ''gateway'',
           Print ''Building cmds for gw1'',
           Print ''Validation Error VRRP ID 5 VLAN 10 No VRRP IP provided... Skipped'']
          = trace s2 @ tpost"
    by simp
  from b h n 1 bw 2 show ?thesis by blast
qed

text \<open>
  C6, as the claim states it, fails: the value \<^verbatim>\<open>Ethernet1/1\<close> neither contains \<^verbatim>\<open>ethernet\<close> nor
  starts with \<^verbatim>\<open>g\<close>, and the interface line is emitted without the \<^verbatim>\<open>gigabitethernet\<close> prefix;
  and for the record of the second file, with an access port, an address and no
  \<^verbatim>\<open>vlan_subnet\<close> key, the emitter raises before the access-port step and emits no
  interface line.
\<close>

theorem access_port_ethernet_counterexample:
  "\<not> contains ''ethernet'' ''Ethernet1/1'' \<and> \<not> startswith ''Ethernet1/1'' ''g'' \<and>
   access_block [(''vlan_id'', Str ''10''), (''access_port'', Str ''Ethernet1/1'')] \<lparr>cmds = [], trace = []\<rparr>
     = Done \<lparr>cmds = [''interface Ethernet1/1'', ''switchport access vlan 10'', ''!''], trace = []\<rparr> \<and>
   BuildCLI no_gateways ethernet_port_rows
     = Done \<lparr>cmds = [''vlan 10'', ''!'', ''interface Ethernet1/1'', ''switchport access vlan 10'', ''!''],
             trace = [Print ''Verifying aa:bb is in Group G1...'', GetDevByType ''gateway'',
                      Print ''Building cmds for aa:bb'']\<rparr> \<and>
   data_of (get_bulkedit_data port_no_subnet_rows)
     = [(''aa:bb'', Some ([(''group'', ''G1'')],
          [[(''vlan_id'', Str ''10''), (''vlan_ip'', Str ''10.0.0.1''), (''access_port'', Str ''1/1/3'')]]))] \<and>
   BuildCLI no_gateways port_no_subnet_rows
     = Raised (KeyError ''vlan_subnet'')
         \<lparr>cmds = [''vlan 10'', ''!''],
          trace = [Print ''Verifying aa:bb is in Group G1...'', GetDevByType ''gateway'',
                   Print ''Building cmds for aa:bb'',
                   Print ''Validation Error No subnet mask for VLAN 10 '']\<rparr>"
  by code_simp

text \<open>
  C6, amended. For every VLAN record whose \<^verbatim>\<open>access_port\<close> is a non-empty string and whose
  block the emitter runs to its end: after the lines of the layer-3 step the block has
  \<^verbatim>\<open>interface <name>\<close>, \<^verbatim>\<open>switchport access vlan <id>\<close> and the separator, where the name is the
  value prefixed with \<^verbatim>\<open>gigabitethernet \<close> exactly when the value does not contain the
  substring \<^verbatim>\<open>thernet\<close> (so that \<^verbatim>\<open>Ethernet\<close> and \<^verbatim>\<open>ethernet\<close> both count as full names) and
  does not start with \<^verbatim>\<open>g\<close>, and the value unchanged otherwise. In every run of \<^verbatim>\<open>build_cmds\<close>
  that finishes on data holding the record, the record's block has run to its end and
  the final output continues it. Nothing is said of a record on whose block the emitter
  raises.
\<close>

theorem access_port_lines_of_finished_vlan:
  assumes "build_vlan v s = Done s'"
      and "dict_get v ''access_port'' = Some (Str a)" and "a \<noteq> []"
  shows "\<exists>i. dict_get v ''vlan_id'' = Some i
     \<and> cmds s' = cmds s @ [''vlan '' @ fmt i, ''!''] @ added (l3_block v)
                   @ [if \<not> contains ''thernet'' a \<and> \<not> startswith a ''g''
                      then ''interface gigabitethernet '' @ a else ''interface '' @ a,
                      ''switchport access vlan '' @ fmt i, ''!'']
                   @ added (pool_block v) @ exclude_lines v @ added (vrrp_block v)
     \<and> (\<forall>sess data sf m common vlans.
           build_cmds sess data = Done sf \<and> (m, Some (common, vlans)) \<in> set data \<and> v \<in> set vlans \<longrightarrow>
           (\<exists>s1 s2 post tpost. build_vlan v s1 = Done s2
               \<and> cmds sf = cmds s2 @ post \<and> trace sf = trace s2 @ tpost))"
proof -
  from build_vlan_DoneD [OF assms(1)] obtain i where
    i: "dict_get v ''vlan_id'' = Some i"
    and c: "cmds s' = cmds s @ [''vlan '' @ fmt i, ''!''] @ added (l3_block v) @ added (access_block v)
            @ added (pool_block v) @ exclude_lines v @ added (vrrp_block v)"
    by blast
  have C: "\<forall>sess data sf m common vlans.
           build_cmds sess data = Done sf \<and> (m, Some (common, vlans)) \<in> set data \<and> v \<in> set vlans \<longrightarrow>
           (\<exists>s1 s2 post tpost. build_vlan v s1 = Done s2
               \<and> cmds sf = cmds s2 @ post \<and> trace sf = trace s2 @ tpost)"
    using build_cmds_reach by blast
  from i c C added_access_block_Str [OF assms(2,3) i] show ?thesis by simp
qed

theorem access_port_lines_of_finished_vlan_witness:
  "build_vlan [(''vlan_id'', Str ''10''), (''access_port'', Str ''1/1/3'')] \<lparr>cmds = [], trace = []\<rparr>
     = Done \<lparr>cmds = [''vlan 10'', ''!'', ''interface gigabitethernet 1/1/3'',
                     ''switchport access vlan 10'', ''!''], trace = []\<rparr>
   \<and> [''vlan 10'', ''!'', ''interface gigabitethernet 1/1/3'', ''switchport access vlan 10'', ''!'']
       = [''vlan 10'', ''!''] @ added (l3_block [(''vlan_id'', Str ''10''), (''access_port'', Str ''1/1/3'')])
         @ [''interface gigabitethernet 1/1/3'', ''switchport access vlan 10'', ''!'']
         @ added (pool_block [(''vlan_id'', Str ''10''), (''access_port'', Str ''1/1/3'')])
         @ exclude_lines [(''vlan_id'', Str ''10''), (''access_port'', Str ''1/1/3'')]
         @ added (vrrp_block [(''vlan_id'', Str ''10''), (''access_port'', Str ''1/1/3'')])
   \<and> build_vlan [(''vlan_id'', Str ''10''), (''access_port'', Str ''gigabitethernet 1/1/5'')]
        \<lparr>cmds = [], trace = []\<rparr>
     = Done \<lparr>cmds = [''vlan 10'', ''!'', ''interface gigabitethernet 1/1/5'',
                     ''switchport access vlan 10'', ''!''], trace = []\<rparr>
   \<and> (\<exists>s1 s2 post tpost.
         build_vlan [(''vlan_id'', Str ''10''), (''access_port'', Str ''1/1/3'')] s1 = Done s2
       \<and> [''vlan 10'', ''!'', ''interface gigabitethernet 1/1/3'', ''switchport access vlan 10'', ''!'']
          = cmds s2 @ post
       \<and> [Print ''Verifying aa:bb is in Group G1...'', GetDevByType ''gateway'',
           Print ''Building cmds for aa:bb''] = trace s2 @ tpost)"
proof -
  let ?v = "[(''vlan_id'', Str ''10''), (''access_port'', Str ''1/1/3'')]"
  let ?w = "[(''vlan_id'', Str ''10''), (''access_port'', Str ''gigabitethernet 1/1/5'')]"
  let ?data = "[(''aa:bb'', Some ([(''group'', ''G1'')], [?v]))]"
  have b: "build_vlan ?v \<lparr>cmds = [], trace = []\<rparr>
     = Done \<lparr>cmds = [''vlan 10'', ''!'', ''interface gigabitethernet 1/1/3'',
                     ''switchport access vlan 10'', ''!''], trace = []\<rparr>"
    by code_simp
  have bw: "build_vlan ?w \<lparr>cmds = [], trace = []\<rparr>
     = Done \<lparr>cmds = [''vlan 10'', ''!'', ''interface gigabitethernet 1/1/5'',
                     ''switchport access vlan 10'', ''!''], trace = []\<rparr>"
    by code_simp
  have p: "dict_get ?v ''access_port'' = Some (Str ''1/1/3'')" and ne: "''1/1/3'' \<noteq> []"
    by (simp_all add: dict_get_def)
  have run: "build_cmds no_gateways ?data
     = Done \<lparr>cmds = [''vlan 10'', ''!'', ''interface gigabitethernet 1/1/3'',
                     ''switchport access vlan 10'', ''!''],
             trace = [Print ''Verifying aa:bb is in Group G1...'', GetDevByType ''gateway'',
                      Print ''Building cmds for aa:bb'']\<rparr>"
    by code_simp
  have t: "\<not> contains ''thernet'' ''1/1/3''" by code_simp
  from access_port_lines_of_finished_vlan [OF b p ne] obtain i where
    i: "dict_get ?v ''vlan_id'' = Some i"
    and A: "cmds \<lparr>cmds = [''vlan 10'', ''!'', ''interface gigabitethernet 1/1/3'',
                     ''switchport access vlan 10'', ''!''], trace = []\<rparr>
            = cmds \<lparr>cmds = [], trace = []\<rparr> @ [''vlan '' @ fmt i, ''!''] @ added (l3_block ?v)
                   @ [if \<not> contains ''thernet'' ''1/1/3'' \<and> \<not> startswith ''1/1/3'' ''g''
                      then ''interface gigabitethernet '' @ ''1/1/3'' else ''interface '' @ ''1/1/3'',
                      ''switchport access vlan '' @ fmt i, ''!'']
                   @ added (pool_block ?v) @ exclude_lines ?v @ added (vrrp_block ?v)"
    and C: "\<forall>sess data sf m common vlans.
           build_cmds sess data = Done sf \<and> (m, Some (common, vlans)) \<in> set data \<and> ?v \<in> set vlans \<longrightarrow>
           (\<exists>s1 s2 post tpost. build_vlan ?v s1 = Done s2
               \<and> cmds sf = cmds s2 @ post \<and> trace sf = trace s2 @ tpost)"
    by blast
  from i have i': "i = Str ''10''" by (simp add: dict_get_def)
  from A t have 1: "[''vlan 10'', ''!'', ''interface gigabitethernet 1/1/3'', ''switchport access vlan 10'', ''!'']
       = [''vlan 10'', ''!''] @ added (l3_block ?v)
         @ [''interface gigabitethernet 1/1/3'', ''switchport access vlan 10'', ''!'']
         @ added (pool_block ?v) @ exclude_lines ?v @ added (vrrp_block ?v)"
    by (simp add: i' startswith_def)
  from C [rule_format, of no_gateways ?data _ "''aa:bb''" "[(''group'', ''G1'')]" "[?v]"] run
  have 2: "\<exists>s1 s2 post tpost.
         build_vlan ?v s1 = Done s2
       \<and> [''vlan 10'', ''!'', ''interface gigabitethernet 1/1/3'', ''switchport access vlan 10'', ''!'']
          = cmds s2 @ post
       \<and> [Print ''Verifying aa:bb is in Group G1...'', GetDevByType ''gateway'',
           Print ''Building cmds for aa:bb''] = trace s2 @ tpost"
    by simp
  from b 1 bw 2 show ?thesis by blast
qed

section \<open>The VLAN list and the rows of the file\<close>


lemma shared_inv_shape:
  assumes "shared_inv st"
  obtains d l where "length (heap st) = 2" "heap st ! 0 = DictObj d" "heap st ! 1 = ListObj l"
    "common_ref st = 0" "vlans_ref st = 1" "read_vlans (heap st) 1 = l"
  using assms by (auto simp: shared_inv_def init_refs read_vlans_def)

lemma process_col_vlan_id:
  assumes "norm_key k = ''vlan_id''"
  shows "process_col st (k, v) =
     st\<lparr>heap := (if vlan_data st \<noteq> [] then vlans_append (vlans_ref st) (vlan_data st) (heap st)
                 else heap st),
        vlan_data := [(''vlan_id'', Str v)]\<rparr>"
  by (simp add: process_col_def assms common_keys_def vlan_prefixes_def)

lemma process_col_other:
  assumes "shared_inv st" and "norm_key k \<noteq> ''vlan_id''"
  shows "read_vlans (heap (process_col st (k, v))) 1 = read_vlans (heap st) 1"
    and "dict_get (vlan_data (process_col st (k, v))) ''vlan_id'' = dict_get (vlan_data st) ''vlan_id''"
proof -
  from assms(1) obtain d l where h: "length (heap st) = 2" "heap st ! 0 = DictObj d" "heap st ! 1 = ListObj l"
    and r: "common_ref st = 0" "vlans_ref st = 1"
    by (rule shared_inv_shape)
  note cs = heap_shape_common_store [OF h]
  show "read_vlans (heap (process_col st (k, v))) 1 = read_vlans (heap st) 1"
    using cs h assms(2) by (simp add: process_col_def Let_def read_vlans_def r)
  show "dict_get (vlan_data (process_col st (k, v))) ''vlan_id'' = dict_get (vlan_data st) ''vlan_id''"
    using assms(2) by (simp add: process_col_def Let_def append_item_def dict_get_dict_set)
qed

lemma read_vlans_vlan_id_step:
  assumes "shared_inv st" and "norm_key k = ''vlan_id''"
  shows "read_vlans (heap (process_col st (k, v))) 1
           = read_vlans (heap st) 1 @ (if vlan_data st \<noteq> [] then [vlan_data st] else [])"
    and "vlan_data (process_col st (k, v)) = [(''vlan_id'', Str v)]"
proof -
  from assms(1) obtain d l where h: "length (heap st) = 2" "heap st ! 0 = DictObj d" "heap st ! 1 = ListObj l"
    and r: "common_ref st = 0" "vlans_ref st = 1"
    by (rule shared_inv_shape)
  note va = heap_shape_vlans_append [OF h]
  show "read_vlans (heap (process_col st (k, v))) 1
           = read_vlans (heap st) 1 @ (if vlan_data st \<noteq> [] then [vlan_data st] else [])"
    using va h by (simp add: process_col_vlan_id [OF assms(2)] read_vlans_def r)
  show "vlan_data (process_col st (k, v)) = [(''vlan_id'', Str v)]"
    by (simp add: process_col_vlan_id [OF assms(2)])
qed

lemma ids_of_Nil [simp]: "ids_of [] = []"
  by (simp add: ids_of_def map_filter_def)

lemma dict_get_Nil [simp]: "dict_get [] k = None"
  by (simp add: dict_get_def)

lemma dict_get_Cons: "dict_get ((k', x) # d) k = (if k = k' then Some x else dict_get d k)"
  by (simp add: dict_get_def)

lemma ids_of_append: "ids_of (xs @ ys) = ids_of xs @ ids_of ys"
  by (simp add: ids_of_def map_filter_def)

lemma ids_of_single: "ids_of [v] = (case dict_get v ''vlan_id'' of None \<Rightarrow> [] | Some i \<Rightarrow> [i])"
  by (simp add: ids_of_def map_filter_def split: option.splits)

lemma ids_process_col:
  assumes "shared_inv st"
  shows "ids_of (read_vlans (heap (process_col st kv)) 1 @ [vlan_data (process_col st kv)])
           = ids_of (read_vlans (heap st) 1 @ [vlan_data st]) @ map Str (row_ids [kv])"
proof (cases "norm_key (fst kv) = ''vlan_id''")
  case True
  from read_vlans_vlan_id_step [OF assms True, of "snd kv"] True
  show ?thesis
    by (auto simp: ids_of_append ids_of_single row_ids_def dict_get_Cons)
next
  case False
  from process_col_other [OF assms False, of "snd kv"] False
  show ?thesis
    by (simp add: ids_of_append ids_of_single row_ids_def)
qed

lemma row_ids_Cons: "row_ids (kv # kvs) = row_ids [kv] @ row_ids kvs"
  by (simp add: row_ids_def)

lemma ids_cols:
  assumes "shared_inv st"
  shows "ids_of (read_vlans (heap (foldl process_col st kvs)) 1 @ [vlan_data (foldl process_col st kvs)])
           = ids_of (read_vlans (heap st) 1 @ [vlan_data st]) @ map Str (row_ids kvs)"
  using assms
proof (induction kvs arbitrary: st)
  case Nil
  then show ?case by (simp add: row_ids_def)
next
  case (Cons kv kvs)
  from shared_inv_process_col [OF Cons.prems, of kv] have inv: "shared_inv (process_col st kv)" by simp
  from Cons.IH [OF inv] ids_process_col [OF Cons.prems, of kv]
  show ?case by (simp add: row_ids_Cons [of kv kvs])
qed

lemma read_vlans_process_row:
  assumes "shared_inv st"
  shows "read_vlans (heap (process_row header st row)) 1
           = read_vlans (heap (foldl process_col (st\<lparr>vlan_data := []\<rparr>) (zip header row))) 1
             @ [vlan_data (foldl process_col (st\<lparr>vlan_data := []\<rparr>) (zip header row))]"
proof -
  let ?st1 = "foldl process_col (st\<lparr>vlan_data := []\<rparr>) (zip header row)"
  from shared_inv_cols [OF shared_inv_reset [OF assms], of "zip header row"] have "shared_inv ?st1" by simp
  then obtain d l where h: "length (heap ?st1) = 2" "heap ?st1 ! 0 = DictObj d" "heap ?st1 ! 1 = ListObj l"
    and r: "common_ref ?st1 = 0" "vlans_ref ?st1 = 1"
    by (rule shared_inv_shape)
  from heap_shape_vlans_append [OF h] h show ?thesis
    by (simp add: process_row_def Let_def r read_vlans_def)
qed

lemma ids_process_row:
  assumes "shared_inv st"
  shows "ids_of (read_vlans (heap (process_row header st row)) 1)
           = ids_of (read_vlans (heap st) 1) @ map Str (row_ids (zip header row))"
proof -
  let ?st0 = "st\<lparr>vlan_data := []\<rparr>"
  let ?st1 = "foldl process_col ?st0 (zip header row)"
  have "ids_of (read_vlans (heap (process_row header st row)) 1)
          = ids_of (read_vlans (heap ?st1) 1 @ [vlan_data ?st1])"
    by (simp only: read_vlans_process_row [OF assms])
  also have "\<dots> = ids_of (read_vlans (heap ?st0) 1 @ [vlan_data ?st0]) @ map Str (row_ids (zip header row))"
    by (rule ids_cols [OF shared_inv_reset [OF assms]])
  also have "\<dots> = ids_of (read_vlans (heap st) 1) @ map Str (row_ids (zip header row))"
    by (simp add: ids_of_append ids_of_single)
  finally show ?thesis .
qed

lemma ids_rows:
  assumes "shared_inv st"
  shows "ids_of (read_vlans (heap (foldl (process_row header) st rows)) 1)
           = ids_of (read_vlans (heap st) 1) @ map Str (vlan_id_cells header rows)"
  using assms
proof (induction rows arbitrary: st)
  case Nil
  then show ?case by (simp add: vlan_id_cells_def)
next
  case (Cons row rows)
  from shared_inv_process_row [OF Cons.prems, of header row]
  have inv: "shared_inv (process_row header st row)" by simp
  from Cons.IH [OF inv] ids_process_row [OF Cons.prems, of header row]
  show ?case by (simp add: vlan_id_cells_def)
qed

lemma ids_get_bulkedit_data:
  "ids_of (read_vlans (heap (get_bulkedit_data (header # data_rows))) 1)
     = map Str (vlan_id_cells header data_rows)"
  using ids_rows [OF shared_inv_init, of header data_rows]
  by (simp add: get_bulkedit_data_def init_ingest_def alloc_def read_vlans_def)

lemma map_dict_get_ids:
  "\<forall>v \<in> set vs. dict_get v ''vlan_id'' \<noteq> None \<Longrightarrow>
     map (\<lambda>v. dict_get v ''vlan_id'') vs = map Some (ids_of vs)"
  by (induction vs) (auto simp: ids_of_def map_filter_def)

text \<open>
  C1, as the claim states it, fails: device \<^verbatim>\<open>bb:bb\<close> has one row, with VLAN 10, and its
  record shows the shared VLAN list with both rows' records; the emitter produces three
  \<^verbatim>\<open>vlan 10\<close> lines for it (one per record, and one inside the VRRP block of the first
  record), while the list has one distinct \<^verbatim>\<open>vlan_id\<close>.
\<close>

theorem vlan_lines_not_distinct_ids_counterexample:
  "data_of (get_bulkedit_data shared_vlan_rows)
     = [(''aa:aa'', Some ([(''group'', ''G1'')],
           [[(''vlan_id'', Str ''10''), (''vrrp_id'', Str ''5''), (''vrrp_ip'', Str ''10.0.0.254'')],
            [(''vlan_id'', Str ''10''), (''vrrp_id'', Str []), (''vrrp_ip'', Str [])]])),
        (''bb:bb'', Some ([(''group'', ''G1'')],
           [[(''vlan_id'', Str ''10''), (''vrrp_id'', Str ''5''), (''vrrp_ip'', Str ''10.0.0.254'')],
            [(''vlan_id'', Str ''10''), (''vrrp_id'', Str []), (''vrrp_ip'', Str [])]]))]
   \<and> build_dev no_gateways ''bb:bb'' (Some ([(''group'', ''G1'')],
           [[(''vlan_id'', Str ''10''), (''vrrp_id'', Str ''5''), (''vrrp_ip'', Str ''10.0.0.254'')],
            [(''vlan_id'', Str ''10''), (''vrrp_id'', Str []), (''vrrp_ip'', Str [])]]))
         \<lparr>cmds = [], trace = []\<rparr>
     = Done \<lparr>cmds = [''vlan 10'', ''!'', ''vrrp 5'', ''ip address 10.0.0.254'', ''vlan 10'',
                     ''no shutdown'', ''!'', ''vlan 10'', ''!''],
             trace = [Print ''Verifying bb:bb is in Group G1...'', GetDevByType ''gateway'',
                      Print ''Building cmds for bb:bb'']\<rparr>
   \<and> length (filter is_vlan_line [''vlan 10'', ''!'', ''vrrp 5'', ''ip address 10.0.0.254'', ''vlan 10'',
                     ''no shutdown'', ''!'', ''vlan 10'', ''!'']) = 3
   \<and> length (distinct_vlan_ids
           [[(''vlan_id'', Str ''10''), (''vrrp_id'', Str ''5''), (''vrrp_ip'', Str ''10.0.0.254'')],
            [(''vlan_id'', Str ''10''), (''vrrp_id'', Str []), (''vrrp_ip'', Str [])]]) = 1"
  by code_simp

text \<open>
  C1, amended. For every CSV input and every device record of the ingested data, if
  the driver finishes for the device: the records of the device's VLAN list are, in
  order, those opened by the \<^verbatim>\<open>vlan_id\<close> cells of the file, all rows taken in file order and
  each row in column order, one record per cell (the list is the one shared by all
  devices, and a repeated value opens a record each time); the \<^verbatim>\<open>vlan <id>\<close> lines added to
  the commands are, record by record in that order, the line that opens the record's
  block and, when \<^verbatim>\<open>vrrp_id\<close> and \<^verbatim>\<open>vrrp_ip\<close> are both set, the line inside its VRRP block. Their
  number is the number of \<^verbatim>\<open>vlan_id\<close> cells of the file plus the number of VRRP blocks
  emitted.
\<close>

theorem vlan_lines_in_file_order:
  assumes "(m, Some (common, vlans)) \<in> set (data_of (get_bulkedit_data (header # data_rows)))"
      and "build_dev sess m (Some (common, vlans)) s = Done s'"
  shows "map (\<lambda>v. dict_get v ''vlan_id'') vlans = map (\<lambda>c. Some (Str c)) (vlan_id_cells header data_rows)
       \<and> filter is_vlan_line (cmds s') = filter is_vlan_line (cmds s) @ concat (map vlan_lines vlans)
       \<and> length (concat (map vlan_lines vlans))
           = length (vlan_id_cells header data_rows)
             + length (filter (\<lambda>v. is_set v ''vrrp_id'' \<and> is_set v ''vrrp_ip'') vlans)"
proof -
  have vl: "vlans = read_vlans (heap (get_bulkedit_data (header # data_rows))) 1"
    by (rule data_of_vlans [OF assms(1)])
  have ok: "\<forall>v \<in> set vlans. excl_ok v"
    using excl_inv_get_bulkedit_data [of "header # data_rows"] vl by (simp add: excl_inv_def)
  from adds_build_dev [OF ok, of sess m common s] assms(2)
  have A: "filter is_vlan_line (cmds s') = filter is_vlan_line (cmds s) @ concat (map vlan_lines vlans)"
    by (simp add: adds_def)
  from build_dev_vlans [OF assms(2)] obtain s0 where "build_vlans vlans s0 = Done s'" by blast
  from build_vlans_have_id [OF this] have ids: "\<forall>v \<in> set vlans. dict_get v ''vlan_id'' \<noteq> None" .
  have "map (\<lambda>v. dict_get v ''vlan_id'') vlans = map Some (ids_of vlans)"
    by (rule map_dict_get_ids [OF ids])
  also have "ids_of vlans = map Str (vlan_id_cells header data_rows)"
    unfolding vl by (rule ids_get_bulkedit_data)
  finally have B: "map (\<lambda>v. dict_get v ''vlan_id'') vlans = map (\<lambda>c. Some (Str c)) (vlan_id_cells header data_rows)"
    by (simp add: comp_def)
  from B have "length vlans = length (vlan_id_cells header data_rows)"
    by (metis length_map)
  with length_vlan_lines [OF ids]
  have C: "length (concat (map vlan_lines vlans))
           = length (vlan_id_cells header data_rows)
             + length (filter (\<lambda>v. is_set v ''vrrp_id'' \<and> is_set v ''vrrp_ip'') vlans)"
    by simp
  from A B C show ?thesis by blast
qed

theorem vlan_lines_in_file_order_witness:
  "(''bb:bb'', Some ([(''group'', ''G1'')],
           [[(''vlan_id'', Str ''10''), (''vrrp_id'', Str ''5''), (''vrrp_ip'', Str ''10.0.0.254'')],
            [(''vlan_id'', Str ''10''), (''vrrp_id'', Str []), (''vrrp_ip'', Str [])]]))
     \<in> set (data_of (get_bulkedit_data shared_vlan_rows))
   \<and> vlan_id_cells [''mac_address'', ''group'', ''vlan_id'', ''vrrp_id'', ''vrrp_ip'']
        [[''aa:aa'', ''G1'', ''10'', ''5'', ''10.0.0.254''], [''bb:bb'', ''G1'', ''10'', [], []]]
      = [''10'', ''10'']
   \<and> filter is_vlan_line [''vlan 10'', ''!'', ''vrrp 5'', ''ip address 10.0.0.254'', ''vlan 10'',
                     ''no shutdown'', ''!'', ''vlan 10'', ''!'']
      = concat (map vlan_lines
           [[(''vlan_id'', Str ''10''), (''vrrp_id'', Str ''5''), (''vrrp_ip'', Str ''10.0.0.254'')],
            [(''vlan_id'', Str ''10''), (''vrrp_id'', Str []), (''vrrp_ip'', Str [])]])
   \<and> map (\<lambda>v. dict_get v ''vlan_id'')
           [[(''vlan_id'', Str ''10''), (''vrrp_id'', Str ''5''), (''vrrp_ip'', Str ''10.0.0.254'')],
            [(''vlan_id'', Str ''10''), (''vrrp_id'', Str []), (''vrrp_ip'', Str [])]]
      = map (\<lambda>c. Some (Str c))
          (vlan_id_cells [''mac_address'', ''group'', ''vlan_id'', ''vrrp_id'', ''vrrp_ip'']
             [[''aa:aa'', ''G1'', ''10'', ''5'', ''10.0.0.254''], [''bb:bb'', ''G1'', ''10'', [], []]])"
proof -
  let ?vlans = "[[(''vlan_id'', Str ''10''), (''vrrp_id'', Str ''5''), (''vrrp_ip'', Str ''10.0.0.254'')],
            [(''vlan_id'', Str ''10''), (''vrrp_id'', Str []), (''vrrp_ip'', Str [])]]"
  let ?header = "[''mac_address'', ''group'', ''vlan_id'', ''vrrp_id'', ''vrrp_ip'']"
  let ?rows = "[[''aa:aa'', ''G1'', ''10'', ''5'', ''10.0.0.254''], [''bb:bb'', ''G1'', ''10'', [], []]]"
  have d: "(''bb:bb'', Some ([(''group'', ''G1'')], ?vlans)) \<in> set (data_of (get_bulkedit_data shared_vlan_rows))"
    by code_simp
  have r: "shared_vlan_rows = ?header # ?rows"
    by (simp add: shared_vlan_rows_def)
  have c: "vlan_id_cells ?header ?rows = [''10'', ''10'']"
    by code_simp
  have b: "build_dev no_gateways ''bb:bb'' (Some ([(''group'', ''G1'')], ?vlans)) \<lparr>cmds = [], trace = []\<rparr>
     = Done \<lparr>cmds = [''vlan 10'', ''!'', ''vrrp 5'', ''ip address 10.0.0.254'', ''vlan 10'',
                     ''no shutdown'', ''!'', ''vlan 10'', ''!''],
             trace = [Print ''Verifying bb:bb is in Group G1...'', GetDevByType ''gateway'',
                      Print ''Building cmds for bb:bb'']\<rparr>"
    by code_simp
  from vlan_lines_in_file_order [OF d [unfolded r] b] d c show ?thesis by simp
qed

section \<open>DHCP exclude ranges, from the file to the commands\<close>























end
